theory Spec2Isabelle
  imports Complex_Main "HOL-Library.AList"
begin

unbundle bit_operations_syntax

section \<open>The world the device manager runs in\<close>

text \<open>
  \<^verbatim>\<open>vscode-device-cleaner.js\<close> is a class of methods over the file system, the process
  environment, \<^verbatim>\<open>Math.random\<close>, \<^verbatim>\<open>Date.now\<close> and a logger. Each of them is a field of
  the record \<open>world\<close>; a method takes the world and returns the new one.

  A file holds either text that \<^verbatim>\<open>JSON.parse\<close> accepts, kept as the value it parses
  to (\<open>Json\<close>), or bytes it rejects (\<open>Raw\<close>). A directory is the list of its immediate
  entries, each with the kind \<^verbatim>\<open>statSync\<close> reports; what lies below an entry is not
  modelled, since the only operation on one removes it recursively. Paths are joined
  with \<open>/\<close> (\<^verbatim>\<open>path.join\<close> on POSIX, without its normalisation).

  Whether a system call fails (permissions, a full disk) is the environment's choice:
  the field \<open>fails\<close> says so for each call. A failing call changes nothing.
\<close>

type_synonym path = string

datatype json =
    JNull
  | JBool bool
  | JNum int
  | JStr string
  | JArr "json list"
  | JObj "(string \<times> json) list"

datatype content = Json json | Raw string

datatype kind = Directory | PlainFile

datatype syscall =
    Read path
  | Write path
  | Copy path path
  | Unlink path
  | Readdir path
  | Stat path
  | Rm path

datatype error = ParseError | TypeError | IOError syscall

datatype log_entry = LogInfo "string list" | LogError string error

record world =
  env :: "string \<Rightarrow> string option"
  homeDir :: path
  files :: "path \<Rightarrow> content option"
  dirs :: "path \<Rightarrow> (string \<times> kind) list option"
  fails :: "syscall \<Rightarrow> bool"
  random :: "nat \<Rightarrow> rat"
  drawn :: nat
  now :: nat
  log :: "log_entry list"

definition info :: "string list \<Rightarrow> world \<Rightarrow> world" where
  "info args w = w\<lparr>log := log w @ [LogInfo args]\<rparr>"

definition logError :: "string \<Rightarrow> error \<Rightarrow> world \<Rightarrow> world" where
  "logError msg e w = w\<lparr>log := log w @ [LogError msg e]\<rparr>"

definition path_join :: "path \<Rightarrow> string \<Rightarrow> path" where
  "path_join a b = a @ ''/'' @ b"

subsection \<open>Strings and numbers of the runtime\<close>

fun starts_with :: "string \<Rightarrow> string \<Rightarrow> bool" where
  "starts_with s [] = True"
| "starts_with [] (c # cs) = False"
| "starts_with (d # ds) (c # cs) = (d = c \<and> starts_with ds cs)"

text \<open>\<^verbatim>\<open>String.prototype.includes\<close>: a case-sensitive substring test.\<close>

fun str_includes :: "string \<Rightarrow> string \<Rightarrow> bool" where
  "str_includes [] sub = (sub = [])"
| "str_includes (c # cs) sub = (starts_with (c # cs) sub \<or> str_includes cs sub)"

definition digit_char :: "nat \<Rightarrow> char" where
  "digit_char d = ''0123456789abcdef'' ! d"

text \<open>\<^verbatim>\<open>Number.prototype.toString(radix)\<close> on an integer.\<close>

function digits_of :: "nat \<Rightarrow> nat \<Rightarrow> string" where
  "digits_of radix n =
     (if radix < 2 \<or> n < radix then [digit_char n]
      else digits_of radix (n div radix) @ [digit_char (n mod radix)])"
  by pat_completeness auto
termination
  by (relation "measure (\<lambda>(radix, n). n)") auto

declare digits_of.simps [simp del]

definition toString :: "nat \<Rightarrow> int \<Rightarrow> string" where
  "toString radix v =
     (if v < 0 then ''-'' @ digits_of radix (nat (- v)) else digits_of radix (nat v))"

text \<open>\<^verbatim>\<open>x | 0\<close>: truncation towards zero, then wrap-around to a signed 32-bit integer.\<close>

definition toInt32 :: "rat \<Rightarrow> int" where
  "toInt32 x =
     (let t = (if x < 0 then - \<lfloor>- x\<rfloor> else \<lfloor>x\<rfloor>)
      in (t + 2147483648) mod 4294967296 - 2147483648)"

subsection \<open>\<^verbatim>\<open>generateNewUUID\<close>\<close>

definition Math_random :: "world \<Rightarrow> rat \<times> world" where
  "Math_random w = (random w (drawn w), w\<lparr>drawn := Suc (drawn w)\<rparr>)"

text \<open>
  The callback of \<^verbatim>\<open>replace(/[xy]/g, ...)\<close>: one draw per matched character;
  \<^verbatim>\<open>r & 0x3 | 0x8\<close> parses as \<^verbatim>\<open>(r & 0x3) | 0x8\<close>.
\<close>

definition uuid_char :: "char \<Rightarrow> world \<Rightarrow> string \<times> world" where
  "uuid_char c w =
     (let (x, w') = Math_random w;
          r = toInt32 (x * 16);
          v = (if c = CHR ''x'' then r else (r AND 3) OR 8)
      in (toString 16 v, w'))"

fun replace_xy :: "string \<Rightarrow> world \<Rightarrow> string \<times> world" where
  "replace_xy [] w = ([], w)"
| "replace_xy (c # cs) w =
     (if c = CHR ''x'' \<or> c = CHR ''y'' then
        (let (s, w1) = uuid_char c w; (rest, w2) = replace_xy cs w1 in (s @ rest, w2))
      else
        (let (rest, w2) = replace_xy cs w in (c # rest, w2)))"

definition uuid_template :: string where
  "uuid_template = ''xxxxxxxx-xxxx-4xxx-yxxx-xxxxxxxxxxxx''"

definition generateNewUUID :: "world \<Rightarrow> string \<times> world" where
  "generateNewUUID w = replace_xy uuid_template w"


subsection \<open>Locating the application\<close>

text \<open>\<^verbatim>\<open>process.env.X ? ... : ...\<close>: a variable counts when it is set to a non-empty string.\<close>

definition truthy_env :: "world \<Rightarrow> string \<Rightarrow> bool" where
  "truthy_env w name = (case env w name of None \<Rightarrow> False | Some v \<Rightarrow> v \<noteq> [])"

definition detectVSCodeVariant :: "world \<Rightarrow> string \<times> world" where
  "detectVSCodeVariant w =
     (let currentApp =
            (if truthy_env w ''VSCODE_PID'' then ''Code''
             else if truthy_env w ''WINDSURF_PID'' then ''Windsurf''
             else if truthy_env w ''CURSOR_PID'' then ''Cursor''
             else ''Code'')
      in (currentApp, info [''Detected VS Code variant:'', currentApp] w))"

definition supportedApps :: "(string \<times> string) list" where
  "supportedApps = [(''Code'', ''.vscode''), (''Windsurf'', ''.windsurf''), (''Cursor'', ''.cursor'')]"

text \<open>
  \<^verbatim>\<open>appName = appName || this.detectVSCodeVariant()\<close>: \<open>None\<close> is \<^verbatim>\<open>null\<close>, and the empty
  string is falsy too. Names of \<^verbatim>\<open>Object.prototype\<close> are not application names here.
\<close>

definition getUserDataPath :: "string option \<Rightarrow> world \<Rightarrow> path \<times> world" where
  "getUserDataPath appName w =
     (let (app, w1) =
            (case appName of
               None \<Rightarrow> detectVSCodeVariant w
             | Some a \<Rightarrow> if a = [] then detectVSCodeVariant w else (a, w));
          configDir = (case map_of supportedApps app of Some d \<Rightarrow> d | None \<Rightarrow> ''.vscode'');
          userDataPath = path_join (homeDir w1) configDir
      in (userDataPath, info [''User data path:'', userDataPath] w1))"

definition getMachineIdPath :: "string option \<Rightarrow> world \<Rightarrow> path \<times> world" where
  "getMachineIdPath appName w =
     (let (userDataPath, w1) = getUserDataPath appName w
      in (path_join (path_join (path_join userDataPath ''User'') ''globalStorage'')
            ''storage.json'', w1))"

definition getTelemetryPath :: "string option \<Rightarrow> world \<Rightarrow> path \<times> world" where
  "getTelemetryPath appName w =
     (let (userDataPath, w1) = getUserDataPath appName w
      in (path_join (path_join (path_join userDataPath ''User'') ''globalStorage'')
            ''state.vscdb'', w1))"

definition getWorkspaceStatePath :: "string option \<Rightarrow> world \<Rightarrow> path \<times> world" where
  "getWorkspaceStatePath appName w =
     (let (userDataPath, w1) = getUserDataPath appName w
      in (path_join (path_join userDataPath ''User'') ''workspaceStorage'', w1))"

subsection \<open>Values and objects of the runtime\<close>

text \<open>A property read gives \<open>None\<close> for \<^verbatim>\<open>undefined\<close>; \<open>truthy\<close> is the test of \<^verbatim>\<open>if (v)\<close>.\<close>

fun truthy :: "json option \<Rightarrow> bool" where
  "truthy None = False"
| "truthy (Some JNull) = False"
| "truthy (Some (JBool b)) = b"
| "truthy (Some (JNum n)) = (n \<noteq> 0)"
| "truthy (Some (JStr s)) = (s \<noteq> [])"
| "truthy (Some (JArr xs)) = True"
| "truthy (Some (JObj kvs)) = True"

text \<open>
  \<^verbatim>\<open>storage[key]\<close>, for the keys this program reads (the six identifier keys and
  \<^verbatim>\<open>scoreInfo_...\<close>): a \<^verbatim>\<open>TypeError\<close> on \<^verbatim>\<open>null\<close>, \<^verbatim>\<open>undefined\<close> on a number, a
  boolean, a string or an array.
\<close>

fun get_prop :: "json \<Rightarrow> string \<Rightarrow> error + json option" where
  "get_prop JNull key = Inl TypeError"
| "get_prop (JObj kvs) key = Inr (map_of kvs key)"
| "get_prop (JBool b) key = Inr None"
| "get_prop (JNum n) key = Inr None"
| "get_prop (JStr s) key = Inr None"
| "get_prop (JArr xs) key = Inr None"

text \<open>
  \<^verbatim>\<open>storage[key] = v\<close>. On an object the key keeps its place. The program assigns only
  under \<^verbatim>\<open>if (storage[key])\<close>, which holds on an object alone; the other equations say
  what strict-mode code does elsewhere (an array takes the property and
  \<^verbatim>\<open>JSON.stringify\<close> leaves it out).
\<close>

fun set_prop :: "json \<Rightarrow> string \<Rightarrow> json \<Rightarrow> error + json" where
  "set_prop (JObj kvs) key v = Inr (JObj (AList.update key v kvs))"
| "set_prop (JArr xs) key v = Inr (JArr xs)"
| "set_prop JNull key v = Inl TypeError"
| "set_prop (JBool b) key v = Inl TypeError"
| "set_prop (JNum n) key v = Inl TypeError"
| "set_prop (JStr s) key v = Inl TypeError"

fun delete_prop :: "json \<Rightarrow> string \<Rightarrow> json" where
  "delete_prop (JObj kvs) key = JObj (AList.delete key kvs)"
| "delete_prop v key = v"

text \<open>\<^verbatim>\<open>storage[k1] || storage[k2]\<close>: the second key is read when the first is falsy.\<close>

definition get_or :: "json \<Rightarrow> string \<Rightarrow> string \<Rightarrow> error + json option" where
  "get_or storage k1 k2 =
     (case get_prop storage k1 of
        Inl e \<Rightarrow> Inl e
      | Inr a \<Rightarrow> if truthy a then Inr a else get_prop storage k2)"

subsection \<open>The \<^verbatim>\<open>fs\<close> calls\<close>

definition existsSync :: "path \<Rightarrow> world \<Rightarrow> bool" where
  "existsSync p w = (\<not> (files w p = None \<and> dirs w p = None))"

definition readFileSync :: "path \<Rightarrow> world \<Rightarrow> error + content" where
  "readFileSync p w =
     (if fails w (Read p) then Inl (IOError (Read p))
      else case files w p of None \<Rightarrow> Inl (IOError (Read p)) | Some c \<Rightarrow> Inr c)"

definition JSON_parse :: "content \<Rightarrow> error + json" where
  "JSON_parse c = (case c of Raw bytes \<Rightarrow> Inl ParseError | Json v \<Rightarrow> Inr v)"

text \<open>
  \<^verbatim>\<open>writeFileSync(p, JSON.stringify(v, null, 2))\<close>: the file then holds text that parses
  to \<open>v\<close>.
\<close>

definition writeFileSync :: "path \<Rightarrow> json \<Rightarrow> world \<Rightarrow> error + world" where
  "writeFileSync p v w =
     (if fails w (Write p) then Inl (IOError (Write p))
      else case dirs w p of
             Some es \<Rightarrow> Inl (IOError (Write p))
           | None \<Rightarrow> Inr (w\<lparr>files := (files w)(p \<mapsto> Json v)\<rparr>))"

definition copyFileSync :: "path \<Rightarrow> path \<Rightarrow> world \<Rightarrow> error + world" where
  "copyFileSync src dst w =
     (if fails w (Copy src dst) then Inl (IOError (Copy src dst))
      else case files w src of
             None \<Rightarrow> Inl (IOError (Copy src dst))
           | Some c \<Rightarrow>
               (case dirs w dst of
                  Some es \<Rightarrow> Inl (IOError (Copy src dst))
                | None \<Rightarrow> Inr (w\<lparr>files := (files w)(dst \<mapsto> c)\<rparr>)))"

definition unlinkSync :: "path \<Rightarrow> world \<Rightarrow> error + world" where
  "unlinkSync p w =
     (if fails w (Unlink p) then Inl (IOError (Unlink p))
      else case files w p of
             None \<Rightarrow> Inl (IOError (Unlink p))
           | Some c \<Rightarrow> Inr (w\<lparr>files := (files w)(p := None)\<rparr>))"

definition readdirSync :: "path \<Rightarrow> world \<Rightarrow> error + string list" where
  "readdirSync p w =
     (if fails w (Readdir p) then Inl (IOError (Readdir p))
      else case dirs w p of None \<Rightarrow> Inl (IOError (Readdir p)) | Some es \<Rightarrow> Inr (map fst es))"

text \<open>\<^verbatim>\<open>fs.statSync(path.join(dir, item)).isDirectory()\<close>.\<close>

definition statSync_isDirectory :: "path \<Rightarrow> string \<Rightarrow> world \<Rightarrow> error + bool" where
  "statSync_isDirectory dir item w =
     (let itemPath = path_join dir item in
      if fails w (Stat itemPath) then Inl (IOError (Stat itemPath))
      else case dirs w dir of
             None \<Rightarrow> Inl (IOError (Stat itemPath))
           | Some es \<Rightarrow>
               (case map_of es item of
                  None \<Rightarrow> Inl (IOError (Stat itemPath))
                | Some k \<Rightarrow> Inr (k = Directory)))"

text \<open>
  \<^verbatim>\<open>fs.rmSync(path.join(dir, item), { recursive: true, force: true })\<close>: the entry and
  all below it go; \<^verbatim>\<open>force\<close> makes a missing entry no error.
\<close>

definition rmSync :: "path \<Rightarrow> string \<Rightarrow> world \<Rightarrow> error + world" where
  "rmSync dir item w =
     (let itemPath = path_join dir item in
      if fails w (Rm itemPath) then Inl (IOError (Rm itemPath))
      else Inr (w\<lparr>dirs := (dirs w)(dir := map_option (AList.delete item) (dirs w dir))\<rparr>))"

subsection \<open>\<^verbatim>\<open>clearUserCache\<close>\<close>

text \<open>\<open>None\<close> is an \<^verbatim>\<open>undefined\<close> user id; \<^verbatim>\<open>if (!userId) return\<close> also stops on the empty string.\<close>

definition clearUserCache :: "string option \<Rightarrow> world \<Rightarrow> world" where
  "clearUserCache userId w0 =
     (case userId of
        None \<Rightarrow> w0
      | Some uid \<Rightarrow>
          if uid = [] then w0
          else
            (let cacheKey = ''scoreInfo_'' @ uid;
                 (storagePath, w1) = getMachineIdPath None w0
             in if existsSync storagePath w1 then
                  (case readFileSync storagePath w1 of
                     Inl e \<Rightarrow> logError ''Error clearing cache:'' e w1
                   | Inr c \<Rightarrow>
                       (case JSON_parse c of
                          Inl e \<Rightarrow> logError ''Error clearing cache:'' e w1
                        | Inr storage \<Rightarrow>
                            (case get_prop storage cacheKey of
                               Inl e \<Rightarrow> logError ''Error clearing cache:'' e w1
                             | Inr v \<Rightarrow>
                                 if truthy v then
                                   (case writeFileSync storagePath (delete_prop storage cacheKey) w1 of
                                      Inl e \<Rightarrow> logError ''Error clearing cache:'' e w1
                                    | Inr w2 \<Rightarrow>
                                        info [''Cleared user's scoreInfo cache for ID: '' @ uid] w2)
                                 else w1)))
                else w1))"

subsection \<open>\<^verbatim>\<open>resetDeviceIdentifiers\<close>\<close>

record 'a id_triple =
  machineId :: 'a
  deviceId :: 'a
  sessionId :: 'a

definition identifierKeys :: "string list" where
  "identifierKeys =
     [''telemetry.machineId'', ''telemetry.devDeviceId'', ''telemetry.sessionId'',
      ''machineId'', ''deviceId'', ''sessionId'']"

definition new_value :: "string id_triple \<Rightarrow> string \<Rightarrow> string" where
  "new_value ids key =
     (if str_includes key ''machine'' then machineId ids
      else if str_includes key ''device'' then deviceId ids
      else sessionId ids)"

text \<open>The body of \<^verbatim>\<open>identifierKeys.forEach\<close>, over the keys still to visit.\<close>

fun reset_keys :: "string list \<Rightarrow> string id_triple \<Rightarrow> json \<Rightarrow> world \<Rightarrow> (error + json) \<times> world" where
  "reset_keys [] ids storage w = (Inr storage, w)"
| "reset_keys (key # keys) ids storage w =
     (case get_prop storage key of
        Inl e \<Rightarrow> (Inl e, w)
      | Inr v \<Rightarrow>
          if truthy v then
            (case set_prop storage key (JStr (new_value ids key)) of
               Inl e \<Rightarrow> (Inl e, w)
             | Inr storage' \<Rightarrow> reset_keys keys ids storage' (info [''Reset '' @ key] w))
          else reset_keys keys ids storage w)"

text \<open>The \<^verbatim>\<open>try\<close> block: three identifiers, then the store if it exists.\<close>

definition reset_try :: "path \<Rightarrow> world \<Rightarrow> (error + string id_triple) \<times> world" where
  "reset_try storagePath w =
     (let (newMachineId, wa) = generateNewUUID w;
          (newDeviceId, wb) = generateNewUUID wa;
          (newSessionId, wc) = generateNewUUID wb;
          ids = \<lparr>machineId = newMachineId, deviceId = newDeviceId, sessionId = newSessionId\<rparr>
      in if existsSync storagePath wc then
           (case readFileSync storagePath wc of
              Inl e \<Rightarrow> (Inl e, wc)
            | Inr c \<Rightarrow>
                (case JSON_parse c of
                   Inl e \<Rightarrow> (Inl e, wc)
                 | Inr storage \<Rightarrow>
                     (case reset_keys identifierKeys ids storage wc of
                        (Inl e, wd) \<Rightarrow> (Inl e, wd)
                      | (Inr storage', wd) \<Rightarrow>
                          (case writeFileSync storagePath storage' wd of
                             Inl e \<Rightarrow> (Inl e, wd)
                           | Inr we \<Rightarrow>
                               (Inr ids, info [''Device identifiers reset successfully''] we)))))
         else (Inr ids, wc))"

text \<open>The \<^verbatim>\<open>catch\<close> logs the error and throws it again.\<close>

definition resetDeviceIdentifiers :: "string option \<Rightarrow> world \<Rightarrow> (error + string id_triple) \<times> world" where
  "resetDeviceIdentifiers appName w0 =
     (let (userDataPath, w1) = getUserDataPath appName w0;
          (storagePath, w2) = getMachineIdPath appName w1;
          w3 = info [''Resetting device identifiers...''] w2
      in case reset_try storagePath w3 of
           (Inl e, w4) \<Rightarrow> (Inl e, logError ''Error resetting device identifiers:'' e w4)
         | (Inr ids, w4) \<Rightarrow> (Inr ids, w4))"

subsection \<open>\<^verbatim>\<open>cleanTelemetryData\<close>\<close>

definition backup_path :: "path \<Rightarrow> world \<Rightarrow> path" where
  "backup_path telemetryPath w = telemetryPath @ ''.backup.'' @ toString 10 (int (now w))"

text \<open>The function returns nothing; its \<^verbatim>\<open>catch\<close> logs and does not throw.\<close>

definition cleanTelemetryData :: "string option \<Rightarrow> world \<Rightarrow> world" where
  "cleanTelemetryData appName w0 =
     (let (telemetryPath, w1) = getTelemetryPath appName w0;
          w2 = info [''Cleaning telemetry data...''] w1
      in if existsSync telemetryPath w2 then
           (let backupPath = backup_path telemetryPath w2
            in case copyFileSync telemetryPath backupPath w2 of
                 Inl e \<Rightarrow> logError ''Error cleaning telemetry:'' e w2
               | Inr w3 \<Rightarrow>
                   (case unlinkSync telemetryPath w3 of
                      Inl e \<Rightarrow> logError ''Error cleaning telemetry:'' e w3
                    | Inr w4 \<Rightarrow>
                        info [''Backup created at:'', backupPath]
                          (info [''Telemetry data cleared''] w4)))
         else w2)"

subsection \<open>\<^verbatim>\<open>clearWorkspaceStorage\<close>\<close>

text \<open>
  The body of \<^verbatim>\<open>items.forEach\<close>: an exception of \<^verbatim>\<open>statSync\<close> or \<^verbatim>\<open>rmSync\<close> leaves the
  loop, with the world as the entries before it left it.
\<close>

fun clear_items :: "path \<Rightarrow> string list \<Rightarrow> nat \<Rightarrow> world \<Rightarrow> (error + nat) \<times> world" where
  "clear_items dir [] clearedCount w = (Inr clearedCount, w)"
| "clear_items dir (item # items) clearedCount w =
     (case statSync_isDirectory dir item w of
        Inl e \<Rightarrow> (Inl e, w)
      | Inr isDir \<Rightarrow>
          if isDir then
            (case rmSync dir item w of
               Inl e \<Rightarrow> (Inl e, w)
             | Inr w' \<Rightarrow> clear_items dir items (Suc clearedCount) w')
          else clear_items dir items clearedCount w)"

definition cleared_message :: "nat \<Rightarrow> string" where
  "cleared_message clearedCount =
     ''Cleared '' @ toString 10 (int clearedCount) @ '' workspace storage items''"

text \<open>
  The function has no \<^verbatim>\<open>return\<close>: its value is \<^verbatim>\<open>undefined\<close>, here \<open>None\<close>, where a
  returned count would be \<open>Some n\<close>. The count goes to the logger only.
\<close>

definition clearWorkspaceStorage :: "string option \<Rightarrow> world \<Rightarrow> nat option \<times> world" where
  "clearWorkspaceStorage appName w0 =
     (let (workspaceStoragePath, w1) = getWorkspaceStatePath appName w0;
          w2 = info [''Clearing workspace storage...''] w1
      in if existsSync workspaceStoragePath w2 then
           (case readdirSync workspaceStoragePath w2 of
              Inl e \<Rightarrow> (None, logError ''Error clearing workspace storage:'' e w2)
            | Inr items \<Rightarrow>
                (case clear_items workspaceStoragePath items 0 w2 of
                   (Inl e, w3) \<Rightarrow> (None, logError ''Error clearing workspace storage:'' e w3)
                 | (Inr clearedCount, w3) \<Rightarrow> (None, info [cleared_message clearedCount] w3)))
         else (None, w2))"

subsection \<open>\<^verbatim>\<open>refreshVSCodeDevice\<close>\<close>

text \<open>An option left out is \<^verbatim>\<open>undefined\<close> (\<open>None\<close>) and takes its default.\<close>

record options =
  resetIdentifiers :: "bool option"
  cleanTelemetry :: "bool option"
  clearWorkspace :: "bool option"
  clearCache :: "bool option"

record results =
  identifiers :: "string id_triple option"
  telemetryCleared :: "bool option"
  workspaceCleared :: "bool option"
  cacheCleared :: "bool option"

definition enabled :: "bool \<Rightarrow> bool option \<Rightarrow> bool" where
  "enabled dflt opt = (case opt of None \<Rightarrow> dflt | Some b \<Rightarrow> b)"

definition no_results :: results where
  "no_results =
     \<lparr>identifiers = None, telemetryCleared = None, workspaceCleared = None,
      cacheCleared = None\<rparr>"

text \<open>
  One \<^verbatim>\<open>try\<close> around the four steps; its \<^verbatim>\<open>catch\<close> logs and throws again. The call of
  \<^verbatim>\<open>clearUserCache\<close> is commented out in the source, so the last step only sets the flag.
\<close>

definition refreshVSCodeDevice :: "string option \<Rightarrow> options \<Rightarrow> world \<Rightarrow> (error + results) \<times> world" where
  "refreshVSCodeDevice appName opts w0 =
     (let w1 = info [''Starting VS Code device refresh...''] w0;
          (r1, w2) =
            (if enabled True (resetIdentifiers opts) then
               (case resetDeviceIdentifiers appName w1 of
                  (Inl e, w) \<Rightarrow> (Inl e, w)
                | (Inr ids, w) \<Rightarrow> (Inr (no_results\<lparr>identifiers := Some ids\<rparr>), w))
             else (Inr no_results, w1))
      in case r1 of
           Inl e \<Rightarrow> (Inl e, logError ''Error during device refresh:'' e w2)
         | Inr res1 \<Rightarrow>
             (let (res2, w3) =
                    (if enabled True (cleanTelemetry opts) then
                       (res1\<lparr>telemetryCleared := Some True\<rparr>, cleanTelemetryData appName w2)
                     else (res1, w2));
                  (res3, w4) =
                    (if enabled False (clearWorkspace opts) then
                       (res2\<lparr>workspaceCleared := Some True\<rparr>,
                        snd (clearWorkspaceStorage appName w3))
                     else (res2, w3));
                  res4 =
                    (if enabled True (clearCache opts) then res3\<lparr>cacheCleared := Some True\<rparr>
                     else res3)
              in (Inr res4, info [''VS Code device refresh completed successfully''] w4)))"

subsection \<open>\<^verbatim>\<open>getCurrentDeviceInfo\<close>\<close>

record 'a device_info = "'a id_triple" +
  storagePath :: path

definition read_info :: "path \<Rightarrow> world \<Rightarrow> error + (json option) device_info option" where
  "read_info p w =
     (if existsSync p w then
        (case readFileSync p w of
           Inl e \<Rightarrow> Inl e
         | Inr c \<Rightarrow>
             (case JSON_parse c of
                Inl e \<Rightarrow> Inl e
              | Inr storage \<Rightarrow>
                  (case get_or storage ''telemetry.machineId'' ''machineId'' of
                     Inl e \<Rightarrow> Inl e
                   | Inr m \<Rightarrow>
                       (case get_or storage ''telemetry.devDeviceId'' ''deviceId'' of
                          Inl e \<Rightarrow> Inl e
                        | Inr d \<Rightarrow>
                            (case get_or storage ''telemetry.sessionId'' ''sessionId'' of
                               Inl e \<Rightarrow> Inl e
                             | Inr s \<Rightarrow>
                                 Inr (Some
                                   \<lparr>machineId = m, deviceId = d, sessionId = s,
                                    storagePath = p\<rparr>))))))
      else Inr None)"

text \<open>
  The \<^verbatim>\<open>catch\<close> logs the error and falls through to \<^verbatim>\<open>return null\<close>: the function
  never throws, and \<open>None\<close> is its \<^verbatim>\<open>null\<close>.
\<close>

definition getCurrentDeviceInfo :: "string option \<Rightarrow> world \<Rightarrow> (json option) device_info option \<times> world" where
  "getCurrentDeviceInfo appName w0 =
     (let (p, w1) = getMachineIdPath appName w0
      in case read_info p w1 of
           Inl e \<Rightarrow> (None, logError ''Error reading device info:'' e w1)
         | Inr r \<Rightarrow> (r, w1))"

section \<open>What the claims speak of\<close>

text \<open>\<^verbatim>\<open>Math.random\<close> gives a number in \<open>[0, 1)\<close>.\<close>

definition unit_draws :: "world \<Rightarrow> bool" where
  "unit_draws w = (\<forall>i. 0 \<le> random w i \<and> random w i < 1)"

definition is_hex :: "char \<Rightarrow> bool" where
  "is_hex c = (c \<in> set ''0123456789abcdef'')"

text \<open>
  The 8-4-4-4-12 shape: 36 characters, hyphens at 8, 13, 18 and 23, lower-case
  hexadecimal digits elsewhere, the version nibble at 14 and the variant nibble at 19.
\<close>

definition is_uuid_v4 :: "string \<Rightarrow> bool" where
  "is_uuid_v4 s =
     (length s = 36 \<and>
      (\<forall>i \<in> {0..<36}. if i \<in> {8, 13, 18, 23} then s ! i = CHR ''-'' else is_hex (s ! i)) \<and>
      s ! 14 = CHR ''4'' \<and> s ! 19 \<in> set ''89ab'')"

text \<open>The three identifiers \<^verbatim>\<open>resetDeviceIdentifiers\<close> generates in the world \<open>w\<close>.\<close>

definition fresh_ids :: "world \<Rightarrow> string id_triple" where
  "fresh_ids w =
     (let (newMachineId, wa) = generateNewUUID w;
          (newDeviceId, wb) = generateNewUUID wa;
          (newSessionId, wc) = generateNewUUID wb
      in \<lparr>machineId = newMachineId, deviceId = newDeviceId, sessionId = newSessionId\<rparr>)"

text \<open>The value a key has in a parsed store, and in the store file at a path.\<close>

definition prop_of :: "json \<Rightarrow> string \<Rightarrow> json option" where
  "prop_of v k = (case v of JObj kvs \<Rightarrow> map_of kvs k | _ \<Rightarrow> None)"

definition stored_value :: "world \<Rightarrow> path \<Rightarrow> string \<Rightarrow> json option" where
  "stored_value w p k = (case files w p of Some (Json v) \<Rightarrow> prop_of v k | _ \<Rightarrow> None)"

text \<open>Two worlds that differ at most in what has been logged.\<close>

definition same_state :: "world \<Rightarrow> world \<Rightarrow> bool" where
  "same_state w w' =
     (env w' = env w \<and> homeDir w' = homeDir w \<and> files w' = files w \<and> dirs w' = dirs w \<and>
      fails w' = fails w \<and> random w' = random w \<and> drawn w' = drawn w \<and> now w' = now w)"

text \<open>The worlds the three file operations of \<^verbatim>\<open>refreshVSCodeDevice\<close> lead through.\<close>

definition after_reset :: "string option \<Rightarrow> options \<Rightarrow> world \<Rightarrow> world" where
  "after_reset a opts w =
     (if enabled True (resetIdentifiers opts) then snd (resetDeviceIdentifiers a w) else w)"

definition after_telemetry :: "string option \<Rightarrow> options \<Rightarrow> world \<Rightarrow> world" where
  "after_telemetry a opts w =
     (if enabled True (cleanTelemetry opts) then cleanTelemetryData a (after_reset a opts w)
      else after_reset a opts w)"

definition after_workspace :: "string option \<Rightarrow> options \<Rightarrow> world \<Rightarrow> world" where
  "after_workspace a opts w =
     (if enabled False (clearWorkspace opts)
      then snd (clearWorkspaceStorage a (after_telemetry a opts w))
      else after_telemetry a opts w)"

subsection \<open>Projections used in the proofs\<close>

text \<open>The character a position of the template allows.\<close>

definition shape_ok :: "char \<Rightarrow> char \<Rightarrow> bool" where
  "shape_ok t c =
     (if t = CHR ''x'' then is_hex c else if t = CHR ''y'' then c \<in> set ''89ab'' else c = t)"

text \<open>
  Paths depend on the environment and the home directory alone: they are read off a
  world that holds nothing else.
\<close>

definition located :: "(string \<Rightarrow> string option) \<Rightarrow> path \<Rightarrow> world" where
  "located e h =
     \<lparr>env = e, homeDir = h, files = (\<lambda>_. None), dirs = (\<lambda>_. None), fails = (\<lambda>_. False),
      random = (\<lambda>_. 0), drawn = 0, now = 0, log = []\<rparr>"

definition user_data_path :: "string option \<Rightarrow> (string \<Rightarrow> string option) \<Rightarrow> path \<Rightarrow> path" where
  "user_data_path a e h = fst (getUserDataPath a (located e h))"

definition global_storage :: "string option \<Rightarrow> (string \<Rightarrow> string option) \<Rightarrow> path \<Rightarrow> path" where
  "global_storage a e h = path_join (path_join (user_data_path a e h) ''User'') ''globalStorage''"

text \<open>The identifier drawn from position \<open>n\<close> of the random source \<open>r\<close>.\<close>

definition uuid_from :: "(nat \<Rightarrow> rat) \<Rightarrow> nat \<Rightarrow> string" where
  "uuid_from r n = fst (generateNewUUID ((located (\<lambda>_. None) [])\<lparr>random := r, drawn := n\<rparr>))"

text \<open>The store \<^verbatim>\<open>identifierKeys.forEach\<close> leaves, without the log lines.\<close>

definition reset_store :: "string list \<Rightarrow> string id_triple \<Rightarrow> json \<Rightarrow> error + json" where
  "reset_store keys ids storage = fst (reset_keys keys ids storage (located (\<lambda>_. None) []))"

text \<open>What \<^verbatim>\<open>resetDeviceIdentifiers\<close> does, read off the world it starts in.\<close>

definition reset_outcome :: "path \<Rightarrow> world \<Rightarrow> error + json option" where
  "reset_outcome p w =
     (if existsSync p w then
        (case readFileSync p w of
           Inl e \<Rightarrow> Inl e
         | Inr c \<Rightarrow>
             (case JSON_parse c of
                Inl e \<Rightarrow> Inl e
              | Inr storage \<Rightarrow>
                  (case reset_store identifierKeys (fresh_ids w) storage of
                     Inl e \<Rightarrow> Inl e
                   | Inr storage' \<Rightarrow>
                       (case writeFileSync p storage' w of
                          Inl e \<Rightarrow> Inl e
                        | Inr w' \<Rightarrow> Inr (Some storage')))))
      else Inr None)"

subsection \<open>Worlds for the witnesses\<close>

text \<open>
  Nothing on disk, no environment variable set, every draw \<open>1/2\<close>; nothing fails.
\<close>

definition half_world :: world where
  "half_world =
     \<lparr>env = (\<lambda>_. None), homeDir = ''/home/u'', files = (\<lambda>_. None), dirs = (\<lambda>_. None),
      fails = (\<lambda>_. False), random = (\<lambda>i. 1 / 2), drawn = 0, now = 0, log = []\<rparr>"

text \<open>Every option left out, so that each takes its default.\<close>

definition all_defaults :: options where
  "all_defaults =
     \<lparr>resetIdentifiers = None, cleanTelemetry = None, clearWorkspace = None, clearCache = None\<rparr>"

text \<open>A telemetry database and no store; the clock reads \<open>7\<close>; nothing fails.\<close>

definition telemetry_world :: world where
  "telemetry_world =
     half_world\<lparr>files := [''/home/u/.vscode/User/globalStorage/state.vscdb'' \<mapsto> Raw ''db''],
       now := 7\<rparr>"

text \<open>A store with one identifier and one cache entry; nothing fails.\<close>

definition cache_world :: world where
  "cache_world =
     half_world\<lparr>files := [''/home/u/.vscode/User/globalStorage/storage.json'' \<mapsto>
       Json (JObj [(''machineId'', JStr ''old-m''), (''scoreInfo_user42'', JStr ''cached'')])]\<rparr>"

text \<open>The store of the spec's end-to-end scenario; nothing fails.\<close>

definition scenario_world :: world where
  "scenario_world =
     half_world\<lparr>files := [''/home/u/.vscode/User/globalStorage/storage.json'' \<mapsto>
       Json (JObj [(''telemetry.machineId'', JStr ''old-m''), (''deviceId'', JStr ''old-d''),
                   (''telemetry.sessionId'', JStr ''old-s'')])]\<rparr>"

text \<open>
  A store that holds \<^verbatim>\<open>telemetry.devDeviceId\<close> and an empty \<^verbatim>\<open>machineId\<close>; the draws are
  \<open>0\<close> for the first two identifiers and \<open>1/2\<close> for the third.
\<close>

definition slip_world :: world where
  "slip_world =
     half_world\<lparr>files := [''/home/u/.vscode/User/globalStorage/storage.json'' \<mapsto>
       Json (JObj [(''telemetry.devDeviceId'', JStr ''old-d''), (''machineId'', JStr [])])],
       random := (\<lambda>i. if i < 62 then 0 else 1 / 2)\<rparr>"

text \<open>The spec's example: two subdirectories and one plain file; nothing fails.\<close>

definition workspace_world :: world where
  "workspace_world =
     half_world\<lparr>dirs := [''/home/u/.vscode/User/workspaceStorage'' \<mapsto>
       [(''ws1'', Directory), (''notes.txt'', PlainFile), (''ws2'', Directory)]]\<rparr>"

text \<open>Three subdirectories, of which the second cannot be removed.\<close>

definition blocked_world :: world where
  "blocked_world =
     half_world\<lparr>dirs := [''/home/u/.vscode/User/workspaceStorage'' \<mapsto>
       [(''a'', Directory), (''b'', Directory), (''c'', Directory)]],
       fails := (\<lambda>c. c = Rm ''/home/u/.vscode/User/workspaceStorage/b'')\<rparr>"

text \<open>A store that is not JSON beside a telemetry file; nothing fails.\<close>

definition broken_world :: world where
  "broken_world =
     half_world\<lparr>files :=
       [''/home/u/.vscode/User/globalStorage/storage.json'' \<mapsto> Raw ''{'',
        ''/home/u/.vscode/User/globalStorage/state.vscdb'' \<mapsto> Raw ''db'']\<rparr>"

text \<open>The telemetry database with a backup copy that fails.\<close>

definition jammed_world :: world where
  "jammed_world =
     telemetry_world\<lparr>fails := (\<lambda>c. c = Copy ''/home/u/.vscode/User/globalStorage/state.vscdb''
       ''/home/u/.vscode/User/globalStorage/state.vscdb.backup.7'')\<rparr>"

section \<open>Properties\<close>

subsection \<open>Identifiers\<close>

lemma digits_of_small: "n < radix \<Longrightarrow> digits_of radix n = [digit_char n]"
  by (subst digits_of.simps) simp

lemma toInt32_draw:
  assumes "0 \<le> x" "x < 1"
  shows "toInt32 (x * 16) = \<lfloor>x * 16\<rfloor>" "0 \<le> \<lfloor>x * 16\<rfloor>" "\<lfloor>x * 16\<rfloor> < 16"
proof -
  from assms show nonneg: "0 \<le> \<lfloor>x * 16\<rfloor>" by simp
  from assms have "x * 16 < 16" by simp
  then show small: "\<lfloor>x * 16\<rfloor> < 16" by (simp add: floor_less_iff)
  from assms nonneg small show "toInt32 (x * 16) = \<lfloor>x * 16\<rfloor>"
    by (simp add: toInt32_def)
qed

lemma is_hex_digit: "d < 16 \<Longrightarrow> is_hex (digit_char d)"
  unfolding is_hex_def digit_char_def by (rule nth_mem) simp

lemma variant_nibble:
  assumes "0 \<le> r" "r < (16::int)"
  shows "8 \<le> (r AND 3) OR 8" "(r AND 3) OR 8 < 12"
proof -
  have "0 \<le> r AND 3" "r AND 3 \<le> 3"
    using assms by (simp_all add: AND_upper2)
  then have "r AND 3 = 0 \<or> r AND 3 = 1 \<or> r AND 3 = 2 \<or> r AND 3 = 3" by arith
  then show "8 \<le> (r AND 3) OR 8" "(r AND 3) OR 8 < 12" by auto
qed

lemma variant_digit: "8 \<le> d \<Longrightarrow> d < 12 \<Longrightarrow> digit_char d \<in> set ''89ab''"
proof -
  assume "8 \<le> d" "d < 12"
  then have "d = 8 \<or> d = 9 \<or> d = 10 \<or> d = 11" by arith
  then show ?thesis by (auto simp: digit_char_def)
qed

lemma uuid_char_x:
  assumes "unit_draws w"
  shows "\<exists>c. fst (uuid_char (CHR ''x'') w) = [c] \<and> is_hex c"
proof -
  let ?x = "random w (drawn w)"
  from assms have x: "0 \<le> ?x" "?x < 1" by (simp_all add: unit_draws_def)
  note t = toInt32_draw [OF x]
  from t(2,3) have "nat \<lfloor>?x * 16\<rfloor> < 16" by linarith
  with t show ?thesis
    by (simp add: uuid_char_def Math_random_def toString_def digits_of_small is_hex_digit)
qed

lemma uuid_char_y:
  assumes "unit_draws w"
  shows "\<exists>c. fst (uuid_char (CHR ''y'') w) = [c] \<and> c \<in> set ''89ab''"
proof -
  let ?x = "random w (drawn w)"
  let ?v = "(\<lfloor>?x * 16\<rfloor> AND 3) OR 8"
  from assms have x: "0 \<le> ?x" "?x < 1" by (simp_all add: unit_draws_def)
  note t = toInt32_draw [OF x]
  note v = variant_nibble [OF t(2) t(3)]
  from v have n: "8 \<le> nat ?v" "nat ?v < 12" by simp_all
  from n have "digits_of 16 (nat ?v) = [digit_char (nat ?v)]" by (simp add: digits_of_small)
  moreover from v have "\<not> ?v < 0" by simp
  ultimately show ?thesis
    using variant_digit [OF n] t(1)
    by (simp add: uuid_char_def Math_random_def toString_def del: set_simps)
qed

lemma uuid_char_world: "snd (uuid_char c w) = w\<lparr>drawn := Suc (drawn w)\<rparr>"
  by (simp add: uuid_char_def Math_random_def Let_def)

lemma unit_draws_drawn [simp]: "unit_draws (w\<lparr>drawn := n\<rparr>) = unit_draws w"
  by (simp add: unit_draws_def)

lemma replace_xy_world:
  "snd (replace_xy t w) = w\<lparr>drawn := drawn w + length (filter (\<lambda>c. c = CHR ''x'' \<or> c = CHR ''y'') t)\<rparr>"
  by (induction t arbitrary: w) (simp_all add: split_def uuid_char_world)

lemma replace_xy_shape:
  "unit_draws w \<Longrightarrow> list_all2 shape_ok t (fst (replace_xy t w))"
proof (induction t arbitrary: w)
  case Nil
  then show ?case by simp
next
  case (Cons c cs)
  show ?case
  proof (cases "c = CHR ''x'' \<or> c = CHR ''y''")
    case False
    then have "shape_ok c c" by (simp add: shape_ok_def)
    with False Cons show ?thesis by (simp add: split_def Let_def)
  next
    case True
    from Cons.prems have "unit_draws (snd (uuid_char c w))"
      by (simp add: uuid_char_world)
    then have rest: "list_all2 shape_ok cs (fst (replace_xy cs (snd (uuid_char c w))))"
      by (rule Cons.IH)
    from True Cons.prems obtain d where d: "fst (uuid_char c w) = [d]" "shape_ok c d"
      using uuid_char_x [of w] uuid_char_y [of w] by (auto simp: shape_ok_def)
    with True rest show ?thesis by (simp add: split_def Let_def)
  qed
qed

lemma generateNewUUID_world [simp]: "snd (generateNewUUID w) = w\<lparr>drawn := drawn w + 31\<rparr>"
  by (simp only: generateNewUUID_def replace_xy_world) (simp add: uuid_template_def)

lemma template_hyphens:
  "\<forall>i \<in> {0..<36}. (uuid_template ! i = CHR ''-'') = (i \<in> {8, 13, 18, 23})"
  by code_simp


text \<open>
  C8. Whatever \<^verbatim>\<open>Math.random\<close> draws within \<open>[0, 1)\<close>, \<^verbatim>\<open>generateNewUUID\<close> returns 36
  characters in the 8-4-4-4-12 hyphenated grouping of lower-case hexadecimal digits,
  with the version nibble \<open>4\<close> and the variant nibble one of \<open>8\<close>, \<open>9\<close>, \<open>a\<close>, \<open>b\<close>.
\<close>

theorem generateNewUUID_shape:
  assumes "unit_draws w"
  shows "is_uuid_v4 (fst (generateNewUUID w))"
proof -
  let ?s = "fst (generateNewUUID w)"
  from assms have all: "list_all2 shape_ok uuid_template ?s"
    unfolding generateNewUUID_def by (rule replace_xy_shape)
  then have len: "length ?s = 36"
    by (simp add: list_all2_lengthD [symmetric] uuid_template_def)
  have nth: "shape_ok (uuid_template ! i) (?s ! i)" if "i < 36" for i
    using all that by (simp add: list_all2_nthD uuid_template_def)
  have lit: "uuid_template ! i \<in> set uuid_template" if "i < 36" for i
    using that by (simp add: uuid_template_def del: set_simps)
  have pos: "if i \<in> {8, 13, 18, 23} then ?s ! i = CHR ''-'' else is_hex (?s ! i)"
    if i: "i \<in> {0..<36}" for i
  proof -
    from i have i36: "i < 36" by simp
    from i template_hyphens
    have h: "(uuid_template ! i = CHR ''-'') = (i \<in> {8, 13, 18, 23})" by blast
    have "set uuid_template = {CHR ''x'', CHR ''-'', CHR ''4'', CHR ''y''}"
      by (auto simp: uuid_template_def)
    with lit [OF i36]
    consider "uuid_template ! i = CHR ''x''" | "uuid_template ! i = CHR ''-''"
      | "uuid_template ! i = CHR ''4''" | "uuid_template ! i = CHR ''y''" by auto
    then show ?thesis
    proof cases
      case 1 with nth [OF i36] h show ?thesis by (simp add: shape_ok_def)
    next
      case 2 with nth [OF i36] h show ?thesis by (simp add: shape_ok_def)
    next
      case 3 with nth [OF i36] h show ?thesis by (simp add: shape_ok_def is_hex_def)
    next
      case 4 with nth [OF i36] h show ?thesis by (auto simp add: shape_ok_def is_hex_def)
    qed
  qed
  have v: "?s ! 14 = CHR ''4''"
    using nth [of 14] by (simp add: shape_ok_def uuid_template_def)
  have y: "?s ! 19 \<in> set ''89ab''"
    using nth [of 19] by (simp add: shape_ok_def uuid_template_def del: set_simps)
  from len pos v y show ?thesis
    unfolding is_uuid_v4_def by blast
qed

theorem generateNewUUID_shape_witness:
  "unit_draws half_world \<and> is_uuid_v4 (fst (generateNewUUID half_world))"
proof -
  have h: "unit_draws half_world" by (simp add: unit_draws_def half_world_def)
  from h generateNewUUID_shape [OF h] show ?thesis by simp
qed

subsection \<open>What the path functions and the logger leave alone\<close>

lemma info_fields [simp]:
  "env (info m w) = env w" "homeDir (info m w) = homeDir w" "files (info m w) = files w"
  "dirs (info m w) = dirs w" "fails (info m w) = fails w" "random (info m w) = random w"
  "drawn (info m w) = drawn w" "now (info m w) = now w"
  "log (info m w) = log w @ [LogInfo m]"
  by (simp_all add: info_def)

lemma logError_fields [simp]:
  "env (logError m e w) = env w" "homeDir (logError m e w) = homeDir w"
  "files (logError m e w) = files w" "dirs (logError m e w) = dirs w"
  "fails (logError m e w) = fails w" "random (logError m e w) = random w"
  "drawn (logError m e w) = drawn w" "now (logError m e w) = now w"
  "log (logError m e w) = log w @ [LogError m e]"
  by (simp_all add: logError_def)

lemma detectVSCodeVariant_fields [simp]:
  "env (snd (detectVSCodeVariant w)) = env w" "homeDir (snd (detectVSCodeVariant w)) = homeDir w"
  "files (snd (detectVSCodeVariant w)) = files w" "dirs (snd (detectVSCodeVariant w)) = dirs w"
  "fails (snd (detectVSCodeVariant w)) = fails w" "random (snd (detectVSCodeVariant w)) = random w"
  "drawn (snd (detectVSCodeVariant w)) = drawn w" "now (snd (detectVSCodeVariant w)) = now w"
  by (simp_all add: detectVSCodeVariant_def Let_def)

lemma getUserDataPath_fields [simp]:
  "env (snd (getUserDataPath a w)) = env w" "homeDir (snd (getUserDataPath a w)) = homeDir w"
  "files (snd (getUserDataPath a w)) = files w" "dirs (snd (getUserDataPath a w)) = dirs w"
  "fails (snd (getUserDataPath a w)) = fails w" "random (snd (getUserDataPath a w)) = random w"
  "drawn (snd (getUserDataPath a w)) = drawn w" "now (snd (getUserDataPath a w)) = now w"
  by (simp_all add: getUserDataPath_def Let_def split_def split: option.splits)

lemma detectVSCodeVariant_located:
  "fst (detectVSCodeVariant w) = fst (detectVSCodeVariant (located (env w) (homeDir w)))"
  by (simp add: detectVSCodeVariant_def truthy_env_def located_def Let_def)

lemma getUserDataPath_fst [simp]:
  "fst (getUserDataPath a w) = user_data_path a (env w) (homeDir w)"
  unfolding user_data_path_def getUserDataPath_def
  using detectVSCodeVariant_located [of w]
  by (simp add: Let_def split_def located_def split: option.splits)

lemma getMachineIdPath_fields [simp]:
  "env (snd (getMachineIdPath a w)) = env w" "homeDir (snd (getMachineIdPath a w)) = homeDir w"
  "files (snd (getMachineIdPath a w)) = files w" "dirs (snd (getMachineIdPath a w)) = dirs w"
  "fails (snd (getMachineIdPath a w)) = fails w" "random (snd (getMachineIdPath a w)) = random w"
  "drawn (snd (getMachineIdPath a w)) = drawn w" "now (snd (getMachineIdPath a w)) = now w"
  by (simp_all add: getMachineIdPath_def split_def)

lemma getTelemetryPath_fields [simp]:
  "env (snd (getTelemetryPath a w)) = env w" "homeDir (snd (getTelemetryPath a w)) = homeDir w"
  "files (snd (getTelemetryPath a w)) = files w" "dirs (snd (getTelemetryPath a w)) = dirs w"
  "fails (snd (getTelemetryPath a w)) = fails w" "random (snd (getTelemetryPath a w)) = random w"
  "drawn (snd (getTelemetryPath a w)) = drawn w" "now (snd (getTelemetryPath a w)) = now w"
  by (simp_all add: getTelemetryPath_def split_def)

lemma getWorkspaceStatePath_fields [simp]:
  "env (snd (getWorkspaceStatePath a w)) = env w"
  "homeDir (snd (getWorkspaceStatePath a w)) = homeDir w"
  "files (snd (getWorkspaceStatePath a w)) = files w"
  "dirs (snd (getWorkspaceStatePath a w)) = dirs w"
  "fails (snd (getWorkspaceStatePath a w)) = fails w"
  "random (snd (getWorkspaceStatePath a w)) = random w"
  "drawn (snd (getWorkspaceStatePath a w)) = drawn w" "now (snd (getWorkspaceStatePath a w)) = now w"
  by (simp_all add: getWorkspaceStatePath_def split_def)

lemma getMachineIdPath_fst [simp]:
  "fst (getMachineIdPath a w) = path_join (global_storage a (env w) (homeDir w)) ''storage.json''"
  by (simp add: getMachineIdPath_def split_def global_storage_def)

lemma getTelemetryPath_fst [simp]:
  "fst (getTelemetryPath a w) = path_join (global_storage a (env w) (homeDir w)) ''state.vscdb''"
  by (simp add: getTelemetryPath_def split_def global_storage_def)

lemma getWorkspaceStatePath_fst [simp]:
  "fst (getWorkspaceStatePath a w) =
     path_join (path_join (user_data_path a (env w) (homeDir w)) ''User'') ''workspaceStorage''"
  by (simp add: getWorkspaceStatePath_def split_def)

lemma store_not_telemetry [simp]:
  "path_join g ''storage.json'' \<noteq> path_join g ''state.vscdb''"
  "path_join g ''storage.json'' \<noteq> path_join g ''state.vscdb'' @ s"
  "path_join g ''state.vscdb'' @ ''.backup.'' @ s \<noteq> path_join g ''state.vscdb''"
  by (simp_all add: path_join_def)

lemma generateNewUUID_fields [simp]:
  "env (snd (generateNewUUID w)) = env w" "homeDir (snd (generateNewUUID w)) = homeDir w"
  "files (snd (generateNewUUID w)) = files w" "dirs (snd (generateNewUUID w)) = dirs w"
  "fails (snd (generateNewUUID w)) = fails w" "random (snd (generateNewUUID w)) = random w"
  "now (snd (generateNewUUID w)) = now w" "log (snd (generateNewUUID w)) = log w"
  by simp_all

subsection \<open>Telemetry\<close>

lemma cleanTelemetryData_files:
  "files (cleanTelemetryData a w) =
     (let t = fst (getTelemetryPath a w); b = backup_path t w in
      case files w t of
        None \<Rightarrow> files w
      | Some c \<Rightarrow>
          if fails w (Copy t b) \<or> dirs w b \<noteq> None then files w
          else if fails w (Unlink t) then (files w)(b \<mapsto> c)
          else ((files w)(b \<mapsto> c))(t := None))"
  by (auto simp add: cleanTelemetryData_def Let_def split_def existsSync_def copyFileSync_def
      unlinkSync_def backup_path_def split: option.splits)

lemma cleanTelemetryData_fields [simp]:
  "env (cleanTelemetryData a w) = env w" "homeDir (cleanTelemetryData a w) = homeDir w"
  "dirs (cleanTelemetryData a w) = dirs w" "fails (cleanTelemetryData a w) = fails w"
  "random (cleanTelemetryData a w) = random w" "drawn (cleanTelemetryData a w) = drawn w"
  "now (cleanTelemetryData a w) = now w"
  by (simp_all add: cleanTelemetryData_def Let_def split_def existsSync_def copyFileSync_def
      unlinkSync_def backup_path_def split: option.splits sum.splits)

lemma default_user_data_path: "user_data_path None (\<lambda>_. None) ''/home/u'' = ''/home/u/.vscode''"
  by (simp add: user_data_path_def getUserDataPath_def detectVSCodeVariant_def truthy_env_def
      located_def supportedApps_def path_join_def Let_def)

lemma default_global_storage:
  "global_storage None (\<lambda>_. None) ''/home/u'' = ''/home/u/.vscode/User/globalStorage''"
  by (simp add: global_storage_def default_user_data_path path_join_def)

lemma toString_digit: "n < 10 \<Longrightarrow> toString 10 (int n) = [digit_char n]"
  by (simp add: toString_def digits_of_small)

text \<open>
  C6. With \<open>t\<close> the telemetry path and \<open>b\<close> the path \<open>t.backup.<Date.now()>\<close>:
  \<^verbatim>\<open>cleanTelemetryData\<close> changes the file at \<open>t\<close> only by deleting it, and then \<open>b\<close> holds
  the content \<open>t\<close> had; when the copy fails no file changes; when the copy and the unlink
  both succeed, \<open>b\<close> holds the original content and \<open>t\<close> is gone; when nothing exists
  at \<open>t\<close>, no file changes; and no directory ever changes.
\<close>

theorem cleanTelemetryData_backup_first:
  "let t = fst (getTelemetryPath a w);
       b = t @ ''.backup.'' @ toString 10 (int (now w));
       w' = cleanTelemetryData a w
   in (files w' t \<noteq> files w t \<longrightarrow> files w' t = None \<and> files w' b = files w t) \<and>
      (isl (copyFileSync t b w) \<longrightarrow> files w' = files w) \<and>
      (files w t = Some c \<and> \<not> isl (copyFileSync t b w) \<and> \<not> fails w (Unlink t) \<longrightarrow>
         files w' b = Some c \<and> files w' t = None) \<and>
      (\<not> existsSync t w \<longrightarrow> files w' = files w) \<and>
      dirs w' = dirs w"
  by (auto simp add: Let_def cleanTelemetryData_files backup_path_def copyFileSync_def
      existsSync_def split: option.splits)

lemma telemetry_world_fields:
  "env telemetry_world = (\<lambda>_. None)" "homeDir telemetry_world = ''/home/u''"
  "files telemetry_world = [''/home/u/.vscode/User/globalStorage/state.vscdb'' \<mapsto> Raw ''db'']"
  "dirs telemetry_world = (\<lambda>_. None)" "fails telemetry_world = (\<lambda>_. False)"
  "now telemetry_world = 7"
  by (simp_all add: telemetry_world_def half_world_def)

theorem cleanTelemetryData_backup_first_witness:
  "files telemetry_world ''/home/u/.vscode/User/globalStorage/state.vscdb'' = Some (Raw ''db'') \<and>
   files (cleanTelemetryData None telemetry_world)
     ''/home/u/.vscode/User/globalStorage/state.vscdb'' = None \<and>
   files (cleanTelemetryData None telemetry_world)
     ''/home/u/.vscode/User/globalStorage/state.vscdb.backup.7'' = Some (Raw ''db'')"
proof -
  let ?t = "''/home/u/.vscode/User/globalStorage/state.vscdb''"
  let ?b = "''/home/u/.vscode/User/globalStorage/state.vscdb.backup.7''"
  have t: "fst (getTelemetryPath None telemetry_world) = ?t"
    by (simp add: telemetry_world_fields default_global_storage path_join_def)
  have b: "?t @ ''.backup.'' @ toString 10 (int (now telemetry_world)) = ?b"
    by (simp add: telemetry_world_fields toString_def digits_of_small digit_char_def)
  have f: "files telemetry_world ?t = Some (Raw ''db'')"
    by (simp add: telemetry_world_fields)
  have c: "\<not> isl (copyFileSync ?t ?b telemetry_world)"
    by (simp add: copyFileSync_def telemetry_world_fields)
  have u: "\<not> fails telemetry_world (Unlink ?t)"
    by (simp add: telemetry_world_fields)
  from cleanTelemetryData_backup_first [of None telemetry_world "Raw ''db''"]
  have "files telemetry_world ?t = Some (Raw ''db'') \<and>
          \<not> isl (copyFileSync ?t ?b telemetry_world) \<and> \<not> fails telemetry_world (Unlink ?t) \<longrightarrow>
        files (cleanTelemetryData None telemetry_world) ?b = Some (Raw ''db'') \<and>
        files (cleanTelemetryData None telemetry_world) ?t = None"
    unfolding Let_def t b by blast
  with f c u show ?thesis by blast
qed

subsection \<open>Resetting the identifiers\<close>

lemma uuid_char_fst_cong:
  "random w' = random w \<Longrightarrow> drawn w' = drawn w \<Longrightarrow> fst (uuid_char c w') = fst (uuid_char c w)"
  by (simp add: uuid_char_def Math_random_def Let_def)

lemma replace_xy_fst_cong:
  "random w' = random w \<Longrightarrow> drawn w' = drawn w \<Longrightarrow>
   fst (replace_xy t w') = fst (replace_xy t w)"
proof (induction t arbitrary: w w')
  case Nil
  show ?case by simp
next
  case (Cons c cs)
  have c: "fst (uuid_char c w') = fst (uuid_char c w)"
    using Cons.prems by (rule uuid_char_fst_cong)
  have "fst (replace_xy cs (snd (uuid_char c w'))) = fst (replace_xy cs (snd (uuid_char c w)))"
    by (rule Cons.IH) (simp_all add: uuid_char_world Cons.prems)
  moreover have "fst (replace_xy cs w') = fst (replace_xy cs w)"
    using Cons.prems by (rule Cons.IH)
  ultimately show ?case using c by (simp add: split_def Let_def)
qed

lemma generateNewUUID_fst [simp]:
  "fst (generateNewUUID w) = uuid_from (random w) (drawn w)"
  unfolding uuid_from_def generateNewUUID_def
  by (rule replace_xy_fst_cong) simp_all

lemma reset_keys_fields [simp]:
  "env (snd (reset_keys ks ids st w)) = env w" "homeDir (snd (reset_keys ks ids st w)) = homeDir w"
  "files (snd (reset_keys ks ids st w)) = files w" "dirs (snd (reset_keys ks ids st w)) = dirs w"
  "fails (snd (reset_keys ks ids st w)) = fails w" "random (snd (reset_keys ks ids st w)) = random w"
  "drawn (snd (reset_keys ks ids st w)) = drawn w" "now (snd (reset_keys ks ids st w)) = now w"
  by (induction ks arbitrary: st w; simp split: sum.splits)+

lemma reset_keys_fst_cong: "fst (reset_keys ks ids st w') = fst (reset_keys ks ids st w)"
  by (induction ks arbitrary: st w w') (auto split: sum.splits)

lemma reset_keys_fst [simp]: "fst (reset_keys ks ids st w) = reset_store ks ids st"
  unfolding reset_store_def by (rule reset_keys_fst_cong)

lemma reset_store_Nil [simp]: "reset_store [] ids st = Inr st"
  by (simp add: reset_store_def)

lemma reset_store_Cons:
  "reset_store (key # ks) ids st =
     (case get_prop st key of
        Inl e \<Rightarrow> Inl e
      | Inr v \<Rightarrow>
          if truthy v then
            (case set_prop st key (JStr (new_value ids key)) of
               Inl e \<Rightarrow> Inl e
             | Inr st' \<Rightarrow> reset_store ks ids st')
          else reset_store ks ids st)"
  unfolding reset_store_def
  by (simp split: sum.splits add: reset_keys_fst_cong [of ks ids _ "info m w" for m w])

lemma reset_store_frame:
  "reset_store ks ids st = Inr st' \<Longrightarrow> k \<notin> set ks \<Longrightarrow> prop_of st' k = prop_of st k"
proof (induction ks arbitrary: st)
  case Nil
  then show ?case by simp
next
  case (Cons key ks)
  from Cons.prems(2) have k: "k \<noteq> key" "k \<notin> set ks" by simp_all
  show ?case
  proof (cases "truthy (prop_of st key)")
    case False
    with Cons.prems(1) have "reset_store ks ids st = Inr st'"
      by (cases st) (simp_all add: reset_store_Cons prop_of_def)
    then show ?thesis using k(2) by (rule Cons.IH)
  next
    case True
    then obtain kvs where st: "st = JObj kvs"
      by (cases st) (simp_all add: prop_of_def)
    let ?st1 = "JObj (AList.update key (JStr (new_value ids key)) kvs)"
    from Cons.prems(1) True st have "reset_store ks ids ?st1 = Inr st'"
      by (simp add: reset_store_Cons prop_of_def)
    then have "prop_of st' k = prop_of ?st1 k" using k(2) by (rule Cons.IH)
    with k(1) st show ?thesis by (simp add: prop_of_def update_conv')
  qed
qed

lemma reset_store_obj:
  "distinct ks \<Longrightarrow>
   \<exists>kvs'. reset_store ks ids (JObj kvs) = Inr (JObj kvs') \<and>
     (\<forall>k. map_of kvs' k =
        (if k \<in> set ks \<and> truthy (map_of kvs k) then Some (JStr (new_value ids k))
         else map_of kvs k))"
proof (induction ks arbitrary: kvs)
  case Nil
  then show ?case by simp
next
  case (Cons key ks)
  from Cons.prems have d: "key \<notin> set ks" "distinct ks" by simp_all
  show ?case
  proof (cases "truthy (map_of kvs key)")
    case False
    from Cons.IH [OF d(2), of kvs] obtain kvs' where
      r: "reset_store ks ids (JObj kvs) = Inr (JObj kvs')" and
      m: "\<And>k. map_of kvs' k =
        (if k \<in> set ks \<and> truthy (map_of kvs k) then Some (JStr (new_value ids k))
         else map_of kvs k)" by blast
    from r False have "reset_store (key # ks) ids (JObj kvs) = Inr (JObj kvs')"
      by (simp add: reset_store_Cons)
    moreover from m False have "\<forall>k. map_of kvs' k =
        (if k \<in> set (key # ks) \<and> truthy (map_of kvs k) then Some (JStr (new_value ids k))
         else map_of kvs k)" by auto
    ultimately show ?thesis by blast
  next
    case True
    let ?v = "JStr (new_value ids key)"
    let ?kvs1 = "AList.update key ?v kvs"
    from Cons.IH [OF d(2), of ?kvs1] obtain kvs' where
      r: "reset_store ks ids (JObj ?kvs1) = Inr (JObj kvs')" and
      m: "\<And>k. map_of kvs' k =
        (if k \<in> set ks \<and> truthy (map_of ?kvs1 k) then Some (JStr (new_value ids k))
         else map_of ?kvs1 k)" by blast
    from r True have "reset_store (key # ks) ids (JObj kvs) = Inr (JObj kvs')"
      by (simp add: reset_store_Cons)
    moreover from m True d(1) have "\<forall>k. map_of kvs' k =
        (if k \<in> set (key # ks) \<and> truthy (map_of kvs k) then Some (JStr (new_value ids k))
         else map_of kvs k)" by (auto simp: update_conv')
    ultimately show ?thesis by blast
  qed
qed

lemma reset_try_fields [simp]:
  "env (snd (reset_try p w)) = env w" "homeDir (snd (reset_try p w)) = homeDir w"
  "dirs (snd (reset_try p w)) = dirs w" "fails (snd (reset_try p w)) = fails w"
  "random (snd (reset_try p w)) = random w" "now (snd (reset_try p w)) = now w"
  "drawn (snd (reset_try p w)) = drawn w + 93"
  by (simp_all add: reset_try_def split_def Let_def writeFileSync_def
      split: sum.splits option.splits)

lemma reset_try_fst:
  "fst (reset_try p w) =
     (case reset_outcome p w of Inl e \<Rightarrow> Inl e | Inr written \<Rightarrow> Inr (fresh_ids w))"
  by (simp add: reset_try_def reset_outcome_def split_def Let_def fresh_ids_def existsSync_def
      readFileSync_def writeFileSync_def split: sum.splits option.splits)

lemma reset_try_files:
  "files (snd (reset_try p w)) =
     (case reset_outcome p w of
        Inr (Some storage') \<Rightarrow> (files w)(p \<mapsto> Json storage')
      | _ \<Rightarrow> files w)"
  by (simp add: reset_try_def reset_outcome_def split_def Let_def fresh_ids_def existsSync_def
      readFileSync_def writeFileSync_def split: sum.splits option.splits)

lemma fresh_ids_cong:
  "random w' = random w \<Longrightarrow> drawn w' = drawn w \<Longrightarrow> fresh_ids w' = fresh_ids w"
  by (simp add: fresh_ids_def split_def)

lemma reset_outcome_cong:
  "files w' = files w \<Longrightarrow> dirs w' = dirs w \<Longrightarrow> fails w' = fails w \<Longrightarrow>
   random w' = random w \<Longrightarrow> drawn w' = drawn w \<Longrightarrow> reset_outcome p w' = reset_outcome p w"
  by (simp add: reset_outcome_def existsSync_def readFileSync_def writeFileSync_def
      fresh_ids_cong [of w' w] split: sum.splits option.splits)

lemma resetDeviceIdentifiers_fst:
  "fst (resetDeviceIdentifiers a w) =
     (case reset_outcome (fst (getMachineIdPath a w)) w of
        Inl e \<Rightarrow> Inl e
      | Inr written \<Rightarrow> Inr (fresh_ids w))"
proof -
  let ?w3 = "info [''Resetting device identifiers...'']
    (snd (getMachineIdPath a (snd (getUserDataPath a w))))"
  have o: "reset_outcome p ?w3 = reset_outcome p w" for p
    by (rule reset_outcome_cong) simp_all
  have i: "fresh_ids ?w3 = fresh_ids w"
    by (rule fresh_ids_cong) simp_all
  show ?thesis
    by (simp add: resetDeviceIdentifiers_def split_def Let_def reset_try_fst o i
        split: sum.splits prod.splits)
qed

lemma resetDeviceIdentifiers_files:
  "files (snd (resetDeviceIdentifiers a w)) =
     (case reset_outcome (fst (getMachineIdPath a w)) w of
        Inr (Some storage') \<Rightarrow> (files w)(fst (getMachineIdPath a w) \<mapsto> Json storage')
      | _ \<Rightarrow> files w)"
proof -
  let ?w3 = "info [''Resetting device identifiers...'']
    (snd (getMachineIdPath a (snd (getUserDataPath a w))))"
  have o: "reset_outcome p ?w3 = reset_outcome p w" for p
    by (rule reset_outcome_cong) simp_all
  have "files (snd (resetDeviceIdentifiers a w)) =
      files (snd (reset_try (fst (getMachineIdPath a w)) ?w3))"
    by (simp add: resetDeviceIdentifiers_def split_def Let_def split: sum.splits prod.splits)
  then show ?thesis by (simp add: reset_try_files o split: sum.splits option.splits)
qed

lemma resetDeviceIdentifiers_fields [simp]:
  "env (snd (resetDeviceIdentifiers a w)) = env w"
  "homeDir (snd (resetDeviceIdentifiers a w)) = homeDir w"
  "dirs (snd (resetDeviceIdentifiers a w)) = dirs w"
  "fails (snd (resetDeviceIdentifiers a w)) = fails w"
  "random (snd (resetDeviceIdentifiers a w)) = random w"
  "now (snd (resetDeviceIdentifiers a w)) = now w"
  by (simp_all add: resetDeviceIdentifiers_def split_def Let_def split: sum.splits prod.splits)

lemma reset_outcome_SomeD:
  assumes "reset_outcome p w = Inr (Some st')"
  shows "\<exists>st. files w p = Some (Json st) \<and> reset_store identifierKeys (fresh_ids w) st = Inr st'"
  using assms
  by (auto simp add: reset_outcome_def readFileSync_def JSON_parse_def writeFileSync_def
      split: if_splits sum.splits option.splits content.splits)

lemma reset_outcome_absent: "\<not> existsSync p w \<Longrightarrow> reset_outcome p w = Inr None"
  by (simp add: reset_outcome_def)

lemma reset_outcome_obj:
  assumes "files w p = Some (Json (JObj kvs))" "\<not> fails w (Read p)" "\<not> fails w (Write p)"
    "dirs w p = None"
  shows "\<exists>kvs'. reset_outcome p w = Inr (Some (JObj kvs')) \<and>
     (\<forall>k. map_of kvs' k =
        (if k \<in> set identifierKeys \<and> truthy (map_of kvs k)
         then Some (JStr (new_value (fresh_ids w) k)) else map_of kvs k))"
proof -
  have "distinct identifierKeys" by (simp add: identifierKeys_def)
  from reset_store_obj [OF this, of "fresh_ids w" kvs] obtain kvs' where
    r: "reset_store identifierKeys (fresh_ids w) (JObj kvs) = Inr (JObj kvs')" and
    m: "\<forall>k. map_of kvs' k =
        (if k \<in> set identifierKeys \<and> truthy (map_of kvs k)
         then Some (JStr (new_value (fresh_ids w) k)) else map_of kvs k)" by blast
  from assms r have "reset_outcome p w = Inr (Some (JObj kvs'))"
    by (simp add: reset_outcome_def existsSync_def readFileSync_def JSON_parse_def
        writeFileSync_def)
  with m show ?thesis by blast
qed

lemma reset_frame:
  assumes "k \<notin> set identifierKeys"
  shows "stored_value (snd (resetDeviceIdentifiers a w)) (fst (getMachineIdPath a w)) k =
         stored_value w (fst (getMachineIdPath a w)) k"
proof (cases "reset_outcome (fst (getMachineIdPath a w)) w")
  case (Inl e)
  then show ?thesis by (simp add: stored_value_def resetDeviceIdentifiers_files)
next
  case (Inr written)
  show ?thesis
  proof (cases written)
    case None
    with Inr show ?thesis by (simp add: stored_value_def resetDeviceIdentifiers_files)
  next
    case (Some st')
    with Inr reset_outcome_SomeD obtain st where
      st: "files w (fst (getMachineIdPath a w)) = Some (Json st)"
        "reset_store identifierKeys (fresh_ids w) st = Inr st'" by blast
    from st(2) assms have "prop_of st' k = prop_of st k" by (rule reset_store_frame)
    with Inr Some st(1) show ?thesis
      by (simp add: stored_value_def resetDeviceIdentifiers_files)
  qed
qed

lemma reset_other_files:
  "q \<noteq> fst (getMachineIdPath a w) \<Longrightarrow> files (snd (resetDeviceIdentifiers a w)) q = files w q"
  by (simp add: resetDeviceIdentifiers_files split: sum.splits option.splits)

subsection \<open>Keys that are not targeted\<close>

lemma prop_of_delete: "k \<noteq> key \<Longrightarrow> prop_of (delete_prop st key) k = prop_of st k"
  by (cases st) (simp_all add: prop_of_def delete_conv')

lemma clearUserCache_files:
  "files (clearUserCache userId w) = files w \<or>
   (\<exists>uid st. userId = Some uid \<and>
      files w (fst (getMachineIdPath None w)) = Some (Json st) \<and>
      files (clearUserCache userId w) =
        (files w)(fst (getMachineIdPath None w) \<mapsto> Json (delete_prop st (''scoreInfo_'' @ uid))))"
  by (auto simp add: clearUserCache_def Let_def split_def existsSync_def readFileSync_def
      JSON_parse_def writeFileSync_def split: option.splits sum.splits content.splits)

lemma clearUserCache_frame:
  assumes "k \<noteq> ''scoreInfo_'' @ uid"
  shows "stored_value (clearUserCache (Some uid) w) (fst (getMachineIdPath None w)) k =
         stored_value w (fst (getMachineIdPath None w)) k"
  using clearUserCache_files [of "Some uid" w] assms
  by (auto simp add: stored_value_def prop_of_delete)

text \<open>
  C4. \<^verbatim>\<open>resetDeviceIdentifiers\<close> leaves every key of the store that is not one of the six
  identifier keys with the value it had, and every other file as it was;
  \<^verbatim>\<open>clearUserCache\<close> leaves every key other than \<open>scoreInfo_<userId>\<close> with the value it
  had, and without a user id it changes nothing.
\<close>

theorem untargeted_keys_kept:
  "(k \<notin> set identifierKeys \<longrightarrow>
      stored_value (snd (resetDeviceIdentifiers a w)) (fst (getMachineIdPath a w)) k =
      stored_value w (fst (getMachineIdPath a w)) k) \<and>
   (q \<noteq> fst (getMachineIdPath a w) \<longrightarrow> files (snd (resetDeviceIdentifiers a w)) q = files w q) \<and>
   (k \<noteq> ''scoreInfo_'' @ uid \<longrightarrow>
      stored_value (clearUserCache (Some uid) w) (fst (getMachineIdPath None w)) k =
      stored_value w (fst (getMachineIdPath None w)) k) \<and>
   clearUserCache None w = w"
  using reset_frame [of k a w] reset_other_files [of q a w] clearUserCache_frame [of k uid w]
  by (simp add: clearUserCache_def)

lemma cache_world_fields:
  "env cache_world = (\<lambda>_. None)" "homeDir cache_world = ''/home/u''"
  "files cache_world = [''/home/u/.vscode/User/globalStorage/storage.json'' \<mapsto>
       Json (JObj [(''machineId'', JStr ''old-m''), (''scoreInfo_user42'', JStr ''cached'')])]"
  "dirs cache_world = (\<lambda>_. None)" "fails cache_world = (\<lambda>_. False)"
  by (simp_all add: cache_world_def half_world_def)

lemma default_storage_path:
  "env w = (\<lambda>_. None) \<Longrightarrow> homeDir w = ''/home/u'' \<Longrightarrow>
   fst (getMachineIdPath None w) = ''/home/u/.vscode/User/globalStorage/storage.json''"
  by (simp add: default_global_storage path_join_def)

theorem untargeted_keys_kept_witness:
  "stored_value (snd (resetDeviceIdentifiers None cache_world))
     ''/home/u/.vscode/User/globalStorage/storage.json'' ''scoreInfo_user42'' =
     Some (JStr ''cached'') \<and>
   stored_value (clearUserCache (Some ''user42'') cache_world)
     ''/home/u/.vscode/User/globalStorage/storage.json'' ''machineId'' = Some (JStr ''old-m'')"
proof -
  let ?p = "''/home/u/.vscode/User/globalStorage/storage.json''"
  have p: "fst (getMachineIdPath None cache_world) = ?p"
    by (rule default_storage_path) (simp_all add: cache_world_fields)
  have k1: "''scoreInfo_user42'' \<notin> set identifierKeys"
    by (simp add: identifierKeys_def)
  have k2: "''machineId'' \<noteq> ''scoreInfo_'' @ ''user42''" by simp
  have v1: "stored_value cache_world ?p ''scoreInfo_user42'' = Some (JStr ''cached'')"
    by (simp add: stored_value_def prop_of_def cache_world_fields)
  have v2: "stored_value cache_world ?p ''machineId'' = Some (JStr ''old-m'')"
    by (simp add: stored_value_def prop_of_def cache_world_fields)
  from untargeted_keys_kept [of "''scoreInfo_user42''" None cache_world ?p "''user42''"] k1
  have "stored_value (snd (resetDeviceIdentifiers None cache_world)) ?p ''scoreInfo_user42'' =
      stored_value cache_world ?p ''scoreInfo_user42''"
    unfolding p by blast
  moreover
  from untargeted_keys_kept [of "''machineId''" None cache_world ?p "''user42''"] k2
  have "stored_value (clearUserCache (Some ''user42'') cache_world) ?p ''machineId'' =
      stored_value cache_world ?p ''machineId''"
    unfolding p by blast
  ultimately show ?thesis using v1 v2 by simp
qed

subsection \<open>Which identifier a key receives\<close>

lemma new_value_keys:
  "new_value ids ''telemetry.machineId'' = machineId ids"
  "new_value ids ''machineId'' = machineId ids"
  "new_value ids ''deviceId'' = deviceId ids"
  "new_value ids ''telemetry.sessionId'' = sessionId ids"
  "new_value ids ''sessionId'' = sessionId ids"
  by (simp_all add: new_value_def)

text \<open>
  \<^verbatim>\<open>'telemetry.devDeviceId'.includes('device')\<close> is false, the \<open>D\<close> being upper case: the
  key falls through to the session identifier.
\<close>

lemma new_value_devDeviceId: "new_value ids ''telemetry.devDeviceId'' = sessionId ids"
  by (simp add: new_value_def)

lemma reset_obj_result:
  assumes "files w (fst (getMachineIdPath a w)) = Some (Json (JObj kvs))"
    "\<not> fails w (Read (fst (getMachineIdPath a w)))"
    "\<not> fails w (Write (fst (getMachineIdPath a w)))"
    "dirs w (fst (getMachineIdPath a w)) = None"
  shows "fst (resetDeviceIdentifiers a w) = Inr (fresh_ids w)"
    and "stored_value (snd (resetDeviceIdentifiers a w)) (fst (getMachineIdPath a w)) k =
         (if k \<in> set identifierKeys \<and> truthy (map_of kvs k)
          then Some (JStr (new_value (fresh_ids w) k)) else map_of kvs k)"
proof -
  from reset_outcome_obj [OF assms] obtain kvs' where
    r: "reset_outcome (fst (getMachineIdPath a w)) w = Inr (Some (JObj kvs'))" and
    m: "\<forall>k. map_of kvs' k =
        (if k \<in> set identifierKeys \<and> truthy (map_of kvs k)
         then Some (JStr (new_value (fresh_ids w) k)) else map_of kvs k)" by blast
  from r show "fst (resetDeviceIdentifiers a w) = Inr (fresh_ids w)"
    by (simp add: resetDeviceIdentifiers_fst)
  from r have "stored_value (snd (resetDeviceIdentifiers a w)) (fst (getMachineIdPath a w)) k =
      map_of kvs' k"
    by (simp add: stored_value_def prop_of_def resetDeviceIdentifiers_files)
  with m show "stored_value (snd (resetDeviceIdentifiers a w)) (fst (getMachineIdPath a w)) k =
         (if k \<in> set identifierKeys \<and> truthy (map_of kvs k)
          then Some (JStr (new_value (fresh_ids w) k)) else map_of kvs k)" by simp
qed

text \<open>
  C3, as amended. When the store holds an object and reading and writing it succeed,
  \<^verbatim>\<open>resetDeviceIdentifiers\<close> returns the three new identifiers and, of the keys whose
  value is truthy, sets \<open>telemetry.machineId\<close> and \<open>machineId\<close> to the new machine id,
  \<open>deviceId\<close> to the new device id, \<open>telemetry.sessionId\<close> and \<open>sessionId\<close> to the new
  session id. A key whose value is absent or falsy (the empty string, \<open>0\<close>, \<open>false\<close>,
  \<open>null\<close>) keeps what it had, and so does every key that is not an identifier key.
\<close>

theorem reset_overwrites_truthy_identifiers:
  assumes "files w (fst (getMachineIdPath a w)) = Some (Json (JObj kvs))"
    "\<not> fails w (Read (fst (getMachineIdPath a w)))"
    "\<not> fails w (Write (fst (getMachineIdPath a w)))"
    "dirs w (fst (getMachineIdPath a w)) = None"
  shows "let p = fst (getMachineIdPath a w); w' = snd (resetDeviceIdentifiers a w);
             ids = fresh_ids w
         in fst (resetDeviceIdentifiers a w) = Inr ids \<and>
            (truthy (map_of kvs k) \<and> (k = ''telemetry.machineId'' \<or> k = ''machineId'') \<longrightarrow>
               stored_value w' p k = Some (JStr (machineId ids))) \<and>
            (truthy (map_of kvs k) \<and> k = ''deviceId'' \<longrightarrow>
               stored_value w' p k = Some (JStr (deviceId ids))) \<and>
            (truthy (map_of kvs k) \<and> (k = ''telemetry.sessionId'' \<or> k = ''sessionId'') \<longrightarrow>
               stored_value w' p k = Some (JStr (sessionId ids))) \<and>
            (\<not> truthy (map_of kvs k) \<longrightarrow> stored_value w' p k = map_of kvs k) \<and>
            (k \<notin> set identifierKeys \<longrightarrow> stored_value w' p k = map_of kvs k)"
  unfolding Let_def
  using reset_obj_result(1) [OF assms] reset_obj_result(2) [OF assms, of k]
  by (auto simp add: new_value_keys identifierKeys_def)

lemma scenario_world_fields:
  "env scenario_world = (\<lambda>_. None)" "homeDir scenario_world = ''/home/u''"
  "files scenario_world = [''/home/u/.vscode/User/globalStorage/storage.json'' \<mapsto>
       Json (JObj [(''telemetry.machineId'', JStr ''old-m''), (''deviceId'', JStr ''old-d''),
                   (''telemetry.sessionId'', JStr ''old-s'')])]"
  "dirs scenario_world = (\<lambda>_. None)" "fails scenario_world = (\<lambda>_. False)"
  by (simp_all add: scenario_world_def half_world_def)

theorem reset_overwrites_truthy_identifiers_witness:
  "fst (resetDeviceIdentifiers None scenario_world) = Inr (fresh_ids scenario_world) \<and>
   stored_value (snd (resetDeviceIdentifiers None scenario_world))
     ''/home/u/.vscode/User/globalStorage/storage.json'' ''telemetry.machineId'' =
     Some (JStr (machineId (fresh_ids scenario_world))) \<and>
   stored_value (snd (resetDeviceIdentifiers None scenario_world))
     ''/home/u/.vscode/User/globalStorage/storage.json'' ''sessionId'' = None"
proof -
  let ?p = "''/home/u/.vscode/User/globalStorage/storage.json''"
  let ?kvs = "[(''telemetry.machineId'', JStr ''old-m''), (''deviceId'', JStr ''old-d''),
               (''telemetry.sessionId'', JStr ''old-s'')]"
  have p: "fst (getMachineIdPath None scenario_world) = ?p"
    by (rule default_storage_path) (simp_all add: scenario_world_fields)
  have h: "files scenario_world (fst (getMachineIdPath None scenario_world)) = Some (Json (JObj ?kvs))"
    "\<not> fails scenario_world (Read (fst (getMachineIdPath None scenario_world)))"
    "\<not> fails scenario_world (Write (fst (getMachineIdPath None scenario_world)))"
    "dirs scenario_world (fst (getMachineIdPath None scenario_world)) = None"
    unfolding p by (simp_all add: scenario_world_fields)
  from reset_overwrites_truthy_identifiers [OF h, of "''telemetry.machineId''"]
    reset_overwrites_truthy_identifiers [OF h, of "''sessionId''"]
  show ?thesis unfolding Let_def p by simp
qed

lemma uuid_char_x_eq:
  assumes "0 \<le> random w (drawn w)" "random w (drawn w) < 1"
  shows "fst (uuid_char (CHR ''x'') w) = [digit_char (nat \<lfloor>random w (drawn w) * 16\<rfloor>)]"
proof -
  note t = toInt32_draw [OF assms]
  from t(2,3) have "nat \<lfloor>random w (drawn w) * 16\<rfloor> < 16" by linarith
  with t show ?thesis
    by (simp add: uuid_char_def Math_random_def toString_def digits_of_small)
qed

lemma replace_xy_hd:
  assumes "0 \<le> random w (drawn w)" "random w (drawn w) < 1"
  shows "hd (fst (replace_xy (CHR ''x'' # cs) w)) = digit_char (nat \<lfloor>random w (drawn w) * 16\<rfloor>)"
  by (simp add: split_def Let_def uuid_char_x_eq [OF assms])

lemma uuid_from_hd:
  assumes "0 \<le> r n" "r n < 1"
  shows "hd (uuid_from r n) = digit_char (nat \<lfloor>r n * 16\<rfloor>)"
proof -
  have t: "uuid_template = CHR ''x'' # tl uuid_template"
    by (simp add: uuid_template_def)
  let ?w = "(located (\<lambda>_. None) [])\<lparr>random := r, drawn := n\<rparr>"
  have "hd (fst (replace_xy (CHR ''x'' # tl uuid_template) ?w)) =
      digit_char (nat \<lfloor>random ?w (drawn ?w) * 16\<rfloor>)"
    by (rule replace_xy_hd) (simp_all add: assms)
  then show ?thesis
    unfolding uuid_from_def generateNewUUID_def t [symmetric] by simp
qed

lemma fresh_ids_sel:
  "machineId (fresh_ids w) = uuid_from (random w) (drawn w)"
  "deviceId (fresh_ids w) = uuid_from (random w) (drawn w + 31)"
  "sessionId (fresh_ids w) = uuid_from (random w) (drawn w + 62)"
  by (simp_all add: fresh_ids_def split_def add.commute)

lemma uuid_from_length:
  assumes "\<forall>i. 0 \<le> r i \<and> r i < 1"
  shows "length (uuid_from r n) = 36"
proof -
  let ?w = "(located (\<lambda>_. None) [])\<lparr>random := r, drawn := n\<rparr>"
  from assms have "unit_draws ?w" by (simp add: unit_draws_def)
  then have "list_all2 shape_ok uuid_template (fst (replace_xy uuid_template ?w))"
    by (rule replace_xy_shape)
  then have "length (fst (replace_xy uuid_template ?w)) = length uuid_template"
    by (simp add: list_all2_lengthD)
  then show ?thesis
    unfolding uuid_from_def generateNewUUID_def by (simp add: uuid_template_def)
qed

lemma slip_world_fields:
  "env slip_world = (\<lambda>_. None)" "homeDir slip_world = ''/home/u''"
  "files slip_world = [''/home/u/.vscode/User/globalStorage/storage.json'' \<mapsto>
       Json (JObj [(''telemetry.devDeviceId'', JStr ''old-d''), (''machineId'', JStr [])])]"
  "dirs slip_world = (\<lambda>_. None)" "fails slip_world = (\<lambda>_. False)"
  "random slip_world = (\<lambda>i. if i < 62 then 0 else 1 / 2)" "drawn slip_world = 0"
  by (simp_all add: slip_world_def half_world_def)

text \<open>
  Against C3 as stated: with the store
  \<^verbatim>\<open>{"telemetry.devDeviceId": "old-d", "machineId": ""}\<close> the reset succeeds, the key
  \<open>machineId\<close>, present with the empty string, is not overwritten by the new machine id,
  and \<open>telemetry.devDeviceId\<close> receives the new session id, which differs from the new
  device id.
\<close>

theorem reset_present_keys_counterexample:
  "fst (resetDeviceIdentifiers None slip_world) = Inr (fresh_ids slip_world) \<and>
   stored_value slip_world ''/home/u/.vscode/User/globalStorage/storage.json'' ''machineId'' =
     Some (JStr []) \<and>
   stored_value (snd (resetDeviceIdentifiers None slip_world))
     ''/home/u/.vscode/User/globalStorage/storage.json'' ''machineId'' = Some (JStr []) \<and>
   machineId (fresh_ids slip_world) \<noteq> [] \<and>
   stored_value (snd (resetDeviceIdentifiers None slip_world))
     ''/home/u/.vscode/User/globalStorage/storage.json'' ''telemetry.devDeviceId'' =
     Some (JStr (sessionId (fresh_ids slip_world))) \<and>
   sessionId (fresh_ids slip_world) \<noteq> deviceId (fresh_ids slip_world)"
proof -
  let ?p = "''/home/u/.vscode/User/globalStorage/storage.json''"
  let ?kvs = "[(''telemetry.devDeviceId'', JStr ''old-d''), (''machineId'', JStr [])]"
  let ?r = "\<lambda>i::nat. if i < 62 then 0 else (1 / 2 :: rat)"
  have p: "fst (getMachineIdPath None slip_world) = ?p"
    by (rule default_storage_path) (simp_all add: slip_world_fields)
  have h: "files slip_world (fst (getMachineIdPath None slip_world)) = Some (Json (JObj ?kvs))"
    "\<not> fails slip_world (Read (fst (getMachineIdPath None slip_world)))"
    "\<not> fails slip_world (Write (fst (getMachineIdPath None slip_world)))"
    "dirs slip_world (fst (getMachineIdPath None slip_world)) = None"
    unfolding p by (simp_all add: slip_world_fields)
  note r = reset_obj_result [OF h]
  have a: "fst (resetDeviceIdentifiers None slip_world) = Inr (fresh_ids slip_world)"
    by (rule r(1))
  have b: "stored_value slip_world ?p ''machineId'' = Some (JStr [])"
    by (simp add: stored_value_def prop_of_def slip_world_fields)
  have c: "stored_value (snd (resetDeviceIdentifiers None slip_world)) ?p ''machineId'' =
      Some (JStr [])"
    using r(2) [of "''machineId''"] unfolding p by simp
  have "length (machineId (fresh_ids slip_world)) = 36"
    by (simp add: fresh_ids_sel slip_world_fields uuid_from_length)
  then have d: "machineId (fresh_ids slip_world) \<noteq> []" by auto
  have e: "stored_value (snd (resetDeviceIdentifiers None slip_world)) ?p
      ''telemetry.devDeviceId'' = Some (JStr (sessionId (fresh_ids slip_world)))"
    using r(2) [of "''telemetry.devDeviceId''"] unfolding p
    by (simp add: identifierKeys_def new_value_devDeviceId)
  have "hd (uuid_from ?r 31) = digit_char (nat \<lfloor>?r 31 * 16\<rfloor>)"
    by (rule uuid_from_hd) simp_all
  moreover have "hd (uuid_from ?r 62) = digit_char (nat \<lfloor>?r 62 * 16\<rfloor>)"
    by (rule uuid_from_hd) simp_all
  ultimately have "hd (uuid_from ?r 62) \<noteq> hd (uuid_from ?r 31)"
    by (simp add: digit_char_def)
  then have f: "sessionId (fresh_ids slip_world) \<noteq> deviceId (fresh_ids slip_world)"
    by (auto simp add: fresh_ids_sel slip_world_fields)
  from a b c d e f show ?thesis by blast
qed

subsection \<open>No store file\<close>

text \<open>
  C2, on the code. When nothing exists at the store path, \<^verbatim>\<open>resetDeviceIdentifiers\<close>
  writes nothing and returns the three generated identifiers: the value it returns
  after a successful rewrite of the store, not a result of its own.
\<close>

theorem reset_without_store_returns_identifiers:
  assumes "\<not> existsSync (fst (getMachineIdPath a w)) w"
  shows "fst (resetDeviceIdentifiers a w) = Inr (fresh_ids w) \<and>
         files (snd (resetDeviceIdentifiers a w)) = files w \<and>
         dirs (snd (resetDeviceIdentifiers a w)) = dirs w"
  using reset_outcome_absent [OF assms]
  by (simp add: resetDeviceIdentifiers_fst resetDeviceIdentifiers_files)

theorem reset_without_store_returns_identifiers_witness:
  "\<not> existsSync ''/home/u/.vscode/User/globalStorage/storage.json'' half_world \<and>
   fst (resetDeviceIdentifiers None half_world) = Inr (fresh_ids half_world) \<and>
   files (snd (resetDeviceIdentifiers None half_world)) = files half_world \<and>
   fst (resetDeviceIdentifiers None scenario_world) = Inr (fresh_ids half_world)"
proof -
  let ?p = "''/home/u/.vscode/User/globalStorage/storage.json''"
  have p: "fst (getMachineIdPath None half_world) = ?p"
    by (rule default_storage_path) (simp_all add: half_world_def)
  have n: "\<not> existsSync (fst (getMachineIdPath None half_world)) half_world"
    by (simp add: existsSync_def half_world_def)
  have "fresh_ids scenario_world = fresh_ids half_world"
    by (rule fresh_ids_cong) (simp_all add: scenario_world_def)
  moreover have "fst (resetDeviceIdentifiers None scenario_world) = Inr (fresh_ids scenario_world)"
    by (rule reset_obj_result(1) [where kvs = "[(''telemetry.machineId'', JStr ''old-m''),
        (''deviceId'', JStr ''old-d''), (''telemetry.sessionId'', JStr ''old-s'')]"])
      (simp_all add: scenario_world_fields default_global_storage path_join_def)
  ultimately show ?thesis
    using n reset_without_store_returns_identifiers [OF n] unfolding p by simp
qed

subsection \<open>Workspace storage\<close>

lemma clear_items_fields [simp]:
  "env (snd (clear_items d xs n w)) = env w" "homeDir (snd (clear_items d xs n w)) = homeDir w"
  "files (snd (clear_items d xs n w)) = files w" "fails (snd (clear_items d xs n w)) = fails w"
  "random (snd (clear_items d xs n w)) = random w" "drawn (snd (clear_items d xs n w)) = drawn w"
  "now (snd (clear_items d xs n w)) = now w" "log (snd (clear_items d xs n w)) = log w"
  by (induction xs arbitrary: n w; simp add: rmSync_def Let_def split: sum.splits)+

lemma clear_items_append:
  "clear_items d (xs @ ys) n w =
     (case clear_items d xs n w of
        (Inl e, w') \<Rightarrow> (Inl e, w')
      | (Inr n', w') \<Rightarrow> clear_items d ys n' w')"
  by (induction xs arbitrary: n w) (simp_all split: sum.splits prod.splits)

lemma clear_items_cong:
  "dirs w' = dirs w \<Longrightarrow> fails w' = fails w \<Longrightarrow>
   fst (clear_items d xs n w') = fst (clear_items d xs n w) \<and>
   dirs (snd (clear_items d xs n w')) = dirs (snd (clear_items d xs n w))"
proof (induction xs arbitrary: n w w')
  case Nil
  then show ?case by simp
next
  case (Cons x xs)
  have s: "statSync_isDirectory d x w' = statSync_isDirectory d x w"
    using Cons.prems by (simp add: statSync_isDirectory_def Let_def)
  show ?case
  proof (cases "statSync_isDirectory d x w")
    case (Inl e)
    with s Cons.prems show ?thesis by simp
  next
    case (Inr isDir)
    show ?thesis
    proof (cases "isDir \<and> \<not> fails w (Rm (path_join d x))")
      case True
      let ?D = "(dirs w)(d := map_option (AList.delete x) (dirs w d))"
      have "fst (clear_items d xs (Suc n) (w'\<lparr>dirs := ?D\<rparr>)) =
            fst (clear_items d xs (Suc n) (w\<lparr>dirs := ?D\<rparr>)) \<and>
            dirs (snd (clear_items d xs (Suc n) (w'\<lparr>dirs := ?D\<rparr>))) =
            dirs (snd (clear_items d xs (Suc n) (w\<lparr>dirs := ?D\<rparr>)))"
        by (rule Cons.IH) (simp_all add: Cons.prems)
      with True Inr s Cons.prems show ?thesis by (simp add: rmSync_def Let_def)
    next
      case False
      with Inr s Cons.prems Cons.IH [of w' w n] show ?thesis
        by (auto simp add: rmSync_def Let_def)
    qed
  qed
qed

lemma entry_kind:
  assumes "distinct (map fst es)" "map_of es x = Some k" "e \<in> set es" "fst e = x"
  shows "snd e = k"
proof -
  from assms(3,4) have "(x, snd e) \<in> set es" by (cases e) auto
  with assms(1) have "map_of es x = Some (snd e)" by simp
  with assms(2) show ?thesis by simp
qed

lemma clear_items_ok:
  assumes "dirs w d = Some es" "distinct (map fst es)" "set xs \<subseteq> fst ` set es" "distinct xs"
    "\<forall>x \<in> set xs. \<not> fails w (Stat (path_join d x)) \<and> \<not> fails w (Rm (path_join d x))"
  shows "fst (clear_items d xs n w) =
           Inr (n + length (filter (\<lambda>x. map_of es x = Some Directory) xs)) \<and>
         dirs (snd (clear_items d xs n w)) =
           (dirs w)(d \<mapsto> filter (\<lambda>e. \<not> (fst e \<in> set xs \<and> snd e = Directory)) es)"
  using assms
proof (induction xs arbitrary: es n w)
  case Nil
  from Nil.prems(1) have "(dirs w)(d \<mapsto> es) = dirs w" by (rule fun_upd_idem)
  then show ?case by simp
next
  case (Cons x xs)
  from Cons.prems(3) have "x \<in> fst ` set es" by simp
  then obtain k where k: "map_of es x = Some k"
    by (cases "map_of es x") (simp_all add: map_of_eq_None_iff)
  from Cons.prems(4) have nx: "x \<notin> set xs" and dxs: "distinct xs" by simp_all
  from Cons.prems(5) have ok: "\<not> fails w (Stat (path_join d x))" "\<not> fails w (Rm (path_join d x))"
    and oks: "\<forall>y \<in> set xs. \<not> fails w (Stat (path_join d y)) \<and> \<not> fails w (Rm (path_join d y))"
    by simp_all
  from Cons.prems(1) k ok(1) have stat: "statSync_isDirectory d x w = Inr (k = Directory)"
    by (simp add: statSync_isDirectory_def Let_def)
  show ?case
  proof (cases k)
    case PlainFile
    from Cons.prems(3) have sub: "set xs \<subseteq> fst ` set es" by simp
    note ih = Cons.IH [OF Cons.prems(1) Cons.prems(2) sub dxs oks, of n]
    have "filter (\<lambda>e. \<not> (fst e \<in> set xs \<and> snd e = Directory)) es =
          filter (\<lambda>e. \<not> (fst e \<in> set (x # xs) \<and> snd e = Directory)) es"
    proof (rule filter_cong [OF refl])
      fix e assume e: "e \<in> set es"
      show "(\<not> (fst e \<in> set xs \<and> snd e = Directory)) =
            (\<not> (fst e \<in> set (x # xs) \<and> snd e = Directory))"
      proof (cases "fst e = x")
        case True
        with entry_kind [OF Cons.prems(2) k e] PlainFile nx show ?thesis by simp
      next
        case False
        then show ?thesis by simp
      qed
    qed
    then have fil: "filter (\<lambda>e. \<not> (fst e \<in> set (x # xs) \<and> snd e = Directory)) es =
          filter (\<lambda>e. \<not> (fst e \<in> set xs \<and> snd e = Directory)) es" by (rule sym)
    from stat PlainFile have step: "clear_items d (x # xs) n w = clear_items d xs n w"
      by simp
    from k PlainFile have cnt: "filter (\<lambda>x. map_of es x = Some Directory) (x # xs) =
        filter (\<lambda>x. map_of es x = Some Directory) xs" by simp
    show ?thesis unfolding step cnt fil by (rule ih)
  next
    case Directory
    let ?es1 = "AList.delete x es"
    let ?w1 = "w\<lparr>dirs := (dirs w)(d \<mapsto> ?es1)\<rparr>"
    from Cons.prems(1) ok(2) have rm: "rmSync d x w = Inr ?w1"
      by (simp add: rmSync_def Let_def)
    have p1: "dirs ?w1 d = Some ?es1" by simp
    have p2: "distinct (map fst ?es1)" using Cons.prems(2) by (rule distinct_delete)
    have p3: "set xs \<subseteq> fst ` set ?es1"
    proof
      fix y assume y: "y \<in> set xs"
      with nx have "y \<noteq> x" by auto
      moreover from y Cons.prems(3) have "y \<in> set (map fst es)" by auto
      ultimately have "y \<in> set (map fst ?es1)" by (simp add: delete_keys)
      then show "y \<in> fst ` set ?es1" by simp
    qed
    have p5: "\<forall>y \<in> set xs. \<not> fails ?w1 (Stat (path_join d y)) \<and> \<not> fails ?w1 (Rm (path_join d y))"
      using oks by simp
    note ih = Cons.IH [OF p1 p2 p3 dxs p5, of "Suc n"]
    have c: "filter (\<lambda>y. map_of ?es1 y = Some Directory) xs =
             filter (\<lambda>y. map_of es y = Some Directory) xs"
    proof (rule filter_cong [OF refl])
      fix y assume "y \<in> set xs"
      with nx have "y \<noteq> x" by auto
      then show "(map_of ?es1 y = Some Directory) = (map_of es y = Some Directory)"
        by (simp add: delete_conv')
    qed
    have f: "filter (\<lambda>e. \<not> (fst e \<in> set xs \<and> snd e = Directory)) ?es1 =
             filter (\<lambda>e. \<not> (fst e \<in> set (x # xs) \<and> snd e = Directory)) es"
    proof -
      have "?es1 = filter (\<lambda>e. fst e \<noteq> x) es"
        by (induction es) auto
      moreover have "filter (\<lambda>e. fst e \<noteq> x \<and> \<not> (fst e \<in> set xs \<and> snd e = Directory)) es =
          filter (\<lambda>e. \<not> (fst e \<in> set (x # xs) \<and> snd e = Directory)) es"
      proof (rule filter_cong [OF refl])
        fix e assume e: "e \<in> set es"
        show "(fst e \<noteq> x \<and> \<not> (fst e \<in> set xs \<and> snd e = Directory)) =
              (\<not> (fst e \<in> set (x # xs) \<and> snd e = Directory))"
        proof (cases "fst e = x")
          case True
          with entry_kind [OF Cons.prems(2) k e] Directory show ?thesis by simp
        next
          case False
          then show ?thesis by simp
        qed
      qed
      ultimately show ?thesis by (simp add: conj_commute)
    qed
    from stat rm Directory
    have step: "clear_items d (x # xs) n w = clear_items d xs (Suc n) ?w1" by simp
    from k Directory
    have e1: "n + length (filter (\<lambda>x. map_of es x = Some Directory) (x # xs)) =
        Suc n + length (filter (\<lambda>y. map_of ?es1 y = Some Directory) xs)"
      unfolding c by simp
    have e2: "(dirs w)(d \<mapsto> filter (\<lambda>e. \<not> (fst e \<in> set (x # xs) \<and> snd e = Directory)) es) =
        (dirs ?w1)(d \<mapsto> filter (\<lambda>e. \<not> (fst e \<in> set xs \<and> snd e = Directory)) ?es1)"
      unfolding f by simp
    show ?thesis unfolding step e1 e2 by (rule ih)
  qed
qed

lemma clearWorkspaceStorage_fst [simp]: "fst (clearWorkspaceStorage a w) = None"
  by (simp add: clearWorkspaceStorage_def Let_def split_def split: sum.splits)

lemma clearWorkspaceStorage_fields [simp]:
  "env (snd (clearWorkspaceStorage a w)) = env w"
  "homeDir (snd (clearWorkspaceStorage a w)) = homeDir w"
  "files (snd (clearWorkspaceStorage a w)) = files w"
  "fails (snd (clearWorkspaceStorage a w)) = fails w"
  "random (snd (clearWorkspaceStorage a w)) = random w"
  "drawn (snd (clearWorkspaceStorage a w)) = drawn w"
  "now (snd (clearWorkspaceStorage a w)) = now w"
  by (simp_all add: clearWorkspaceStorage_def Let_def split_def split: sum.splits)

lemma clearWorkspaceStorage_ok:
  assumes "dirs w (fst (getWorkspaceStatePath a w)) = Some es" "distinct (map fst es)"
    "\<not> fails w (Readdir (fst (getWorkspaceStatePath a w)))"
    "\<forall>x \<in> fst ` set es. \<not> fails w (Stat (path_join (fst (getWorkspaceStatePath a w)) x)) \<and>
        \<not> fails w (Rm (path_join (fst (getWorkspaceStatePath a w)) x))"
  shows "dirs (snd (clearWorkspaceStorage a w)) =
           (dirs w)(fst (getWorkspaceStatePath a w) \<mapsto> filter (\<lambda>e. snd e \<noteq> Directory) es)"
    and "last (log (snd (clearWorkspaceStorage a w))) =
           LogInfo [cleared_message (length (filter (\<lambda>e. snd e = Directory) es))]"
proof -
  let ?ws = "fst (getWorkspaceStatePath a w)"
  let ?w2 = "info [''Clearing workspace storage...''] (snd (getWorkspaceStatePath a w))"
  let ?xs = "map fst es"
  have a1: "dirs ?w2 ?ws = Some es" using assms(1) by simp
  have a3: "set ?xs \<subseteq> fst ` set es" by simp
  have a4: "distinct ?xs" by (rule assms(2))
  have a5: "\<forall>x \<in> set ?xs. \<not> fails ?w2 (Stat (path_join ?ws x)) \<and> \<not> fails ?w2 (Rm (path_join ?ws x))"
    using assms(4) by simp
  note ok = clear_items_ok [OF a1 assms(2) a3 a4 a5, of 0]
  have cnt: "filter (\<lambda>x. map_of es x = Some Directory) ?xs =
      map fst (filter (\<lambda>e. snd e = Directory) es)"
    unfolding filter_map
  proof (rule arg_cong [where f = "map fst"], rule filter_cong [OF refl])
    fix e assume "e \<in> set es"
    then have "(fst e, snd e) \<in> set es" by simp
    with assms(2) have "map_of es (fst e) = Some (snd e)" by (rule map_of_is_SomeI)
    then show "((\<lambda>x. map_of es x = Some Directory) \<circ> fst) e = (snd e = Directory)" by simp
  qed
  have fil: "filter (\<lambda>e. \<not> (fst e \<in> set ?xs \<and> snd e = Directory)) es =
      filter (\<lambda>e. snd e \<noteq> Directory) es"
    by (rule filter_cong [OF refl]) simp
  from ok have r: "fst (clear_items ?ws ?xs 0 ?w2) =
      Inr (length (filter (\<lambda>e. snd e = Directory) es))"
    unfolding cnt by simp
  from ok have d: "dirs (snd (clear_items ?ws ?xs 0 ?w2)) =
      (dirs w)(?ws \<mapsto> filter (\<lambda>e. snd e \<noteq> Directory) es)"
    unfolding fil by simp
  have e: "existsSync ?ws ?w2" using assms(1) by (simp add: existsSync_def)
  have l: "readdirSync ?ws ?w2 = Inr ?xs" using assms(1,3) by (simp add: readdirSync_def)
  have c: "clearWorkspaceStorage a w =
      (None, info [cleared_message (length (filter (\<lambda>e. snd e = Directory) es))]
         (snd (clear_items ?ws ?xs 0 ?w2)))"
    using e l r by (simp add: clearWorkspaceStorage_def Let_def split_def)
  show "dirs (snd (clearWorkspaceStorage a w)) =
           (dirs w)(?ws \<mapsto> filter (\<lambda>e. snd e \<noteq> Directory) es)"
    unfolding c using d by simp
  show "last (log (snd (clearWorkspaceStorage a w))) =
           LogInfo [cleared_message (length (filter (\<lambda>e. snd e = Directory) es))]"
    unfolding c by simp
qed

lemma clearWorkspaceStorage_abort:
  assumes "existsSync (fst (getWorkspaceStatePath a w)) w"
    "readdirSync (fst (getWorkspaceStatePath a w)) w = Inr (xs @ ys)"
    "fst (clear_items (fst (getWorkspaceStatePath a w)) xs 0 w) = Inl e"
  shows "dirs (snd (clearWorkspaceStorage a w)) =
           dirs (snd (clear_items (fst (getWorkspaceStatePath a w)) xs 0 w))"
    and "last (log (snd (clearWorkspaceStorage a w))) =
           LogError ''Error clearing workspace storage:'' e"
proof -
  let ?ws = "fst (getWorkspaceStatePath a w)"
  let ?w2 = "info [''Clearing workspace storage...''] (snd (getWorkspaceStatePath a w))"
  have e: "existsSync ?ws ?w2" using assms(1) by (simp add: existsSync_def)
  have "readdirSync ?ws ?w2 = readdirSync ?ws w" by (simp add: readdirSync_def)
  with assms(2) have l: "readdirSync ?ws ?w2 = Inr (xs @ ys)" by simp
  have cg: "fst (clear_items ?ws xs 0 ?w2) = fst (clear_items ?ws xs 0 w) \<and>
      dirs (snd (clear_items ?ws xs 0 ?w2)) = dirs (snd (clear_items ?ws xs 0 w))"
    by (rule clear_items_cong) simp_all
  with assms(3) have f: "fst (clear_items ?ws xs 0 ?w2) = Inl e" by simp
  then have "clear_items ?ws (xs @ ys) 0 ?w2 = (Inl e, snd (clear_items ?ws xs 0 ?w2))"
    by (simp add: clear_items_append split_def)
  with e l have c: "clearWorkspaceStorage a w =
      (None, logError ''Error clearing workspace storage:'' e (snd (clear_items ?ws xs 0 ?w2)))"
    by (simp add: clearWorkspaceStorage_def Let_def split_def)
  show "dirs (snd (clearWorkspaceStorage a w)) = dirs (snd (clear_items ?ws xs 0 w))"
    unfolding c using cg by simp
  show "last (log (snd (clearWorkspaceStorage a w))) =
           LogError ''Error clearing workspace storage:'' e"
    unfolding c by simp
qed

lemma default_workspace_path:
  "env w = (\<lambda>_. None) \<Longrightarrow> homeDir w = ''/home/u'' \<Longrightarrow>
   fst (getWorkspaceStatePath None w) = ''/home/u/.vscode/User/workspaceStorage''"
  by (simp add: default_user_data_path path_join_def)

lemma workspace_world_fields:
  "env workspace_world = (\<lambda>_. None)" "homeDir workspace_world = ''/home/u''"
  "dirs workspace_world = [''/home/u/.vscode/User/workspaceStorage'' \<mapsto>
       [(''ws1'', Directory), (''notes.txt'', PlainFile), (''ws2'', Directory)]]"
  "fails workspace_world = (\<lambda>_. False)"
  by (simp_all add: workspace_world_def half_world_def)

lemma blocked_world_fields:
  "env blocked_world = (\<lambda>_. None)" "homeDir blocked_world = ''/home/u''"
  "dirs blocked_world = [''/home/u/.vscode/User/workspaceStorage'' \<mapsto>
       [(''a'', Directory), (''b'', Directory), (''c'', Directory)]]"
  "fails blocked_world = (\<lambda>c. c = Rm ''/home/u/.vscode/User/workspaceStorage/b'')"
  by (simp_all add: blocked_world_def half_world_def)

lemma cleared_message_2:
  "cleared_message (Suc (Suc 0)) = ''Cleared 2 workspace storage items''"
  by (simp add: cleared_message_def toString_def digits_of_small digit_char_def)

text \<open>
  C5, as amended. When the workspace-storage directory exists, can be listed, and no
  \<^verbatim>\<open>statSync\<close> or \<^verbatim>\<open>rmSync\<close> on its entries fails, \<^verbatim>\<open>clearWorkspaceStorage\<close> removes every
  immediate subdirectory entry and leaves every other entry and every file as it was.
  It returns no value: the count of removed entries goes to the logger.
\<close>

theorem clearWorkspaceStorage_removes_subdirectories:
  assumes "dirs w (fst (getWorkspaceStatePath a w)) = Some es" "distinct (map fst es)"
    "\<not> fails w (Readdir (fst (getWorkspaceStatePath a w)))"
    "\<forall>x \<in> fst ` set es. \<not> fails w (Stat (path_join (fst (getWorkspaceStatePath a w)) x)) \<and>
        \<not> fails w (Rm (path_join (fst (getWorkspaceStatePath a w)) x))"
  shows "fst (clearWorkspaceStorage a w) = None \<and>
         dirs (snd (clearWorkspaceStorage a w)) =
           (dirs w)(fst (getWorkspaceStatePath a w) \<mapsto> filter (\<lambda>e. snd e \<noteq> Directory) es) \<and>
         files (snd (clearWorkspaceStorage a w)) = files w \<and>
         last (log (snd (clearWorkspaceStorage a w))) =
           LogInfo [cleared_message (length (filter (\<lambda>e. snd e = Directory) es))]"
  using clearWorkspaceStorage_ok [OF assms] by simp

theorem clearWorkspaceStorage_removes_subdirectories_witness:
  "dirs workspace_world ''/home/u/.vscode/User/workspaceStorage'' =
     Some [(''ws1'', Directory), (''notes.txt'', PlainFile), (''ws2'', Directory)] \<and>
   dirs (snd (clearWorkspaceStorage None workspace_world))
     ''/home/u/.vscode/User/workspaceStorage'' = Some [(''notes.txt'', PlainFile)] \<and>
   last (log (snd (clearWorkspaceStorage None workspace_world))) =
     LogInfo [''Cleared 2 workspace storage items'']"
proof -
  let ?ws = "''/home/u/.vscode/User/workspaceStorage''"
  let ?es = "[(''ws1'', Directory), (''notes.txt'', PlainFile), (''ws2'', Directory)]"
  have p: "fst (getWorkspaceStatePath None workspace_world) = ?ws"
    by (rule default_workspace_path) (simp_all add: workspace_world_fields)
  have h: "dirs workspace_world (fst (getWorkspaceStatePath None workspace_world)) = Some ?es"
    "distinct (map fst ?es)"
    "\<not> fails workspace_world (Readdir (fst (getWorkspaceStatePath None workspace_world)))"
    "\<forall>x \<in> fst ` set ?es.
       \<not> fails workspace_world (Stat (path_join (fst (getWorkspaceStatePath None workspace_world)) x)) \<and>
       \<not> fails workspace_world (Rm (path_join (fst (getWorkspaceStatePath None workspace_world)) x))"
    unfolding p by (simp_all add: workspace_world_fields)
  from clearWorkspaceStorage_removes_subdirectories [OF h] h(1)
  show ?thesis unfolding p by (simp add: cleared_message_2)
qed

text \<open>
  Against C5 as stated: on the spec's example both subdirectories go and the file stays,
  but the value returned is \<^verbatim>\<open>undefined\<close>, not the count \<open>2\<close>.
\<close>

theorem clearWorkspaceStorage_count_counterexample:
  "dirs (snd (clearWorkspaceStorage None workspace_world))
     ''/home/u/.vscode/User/workspaceStorage'' = Some [(''notes.txt'', PlainFile)] \<and>
   fst (clearWorkspaceStorage None workspace_world) \<noteq> Some 2"
proof -
  let ?ws = "''/home/u/.vscode/User/workspaceStorage''"
  let ?es = "[(''ws1'', Directory), (''notes.txt'', PlainFile), (''ws2'', Directory)]"
  have p: "fst (getWorkspaceStatePath None workspace_world) = ?ws"
    by (rule default_workspace_path) (simp_all add: workspace_world_fields)
  have h: "dirs workspace_world (fst (getWorkspaceStatePath None workspace_world)) = Some ?es"
    "distinct (map fst ?es)"
    "\<not> fails workspace_world (Readdir (fst (getWorkspaceStatePath None workspace_world)))"
    "\<forall>x \<in> fst ` set ?es.
       \<not> fails workspace_world (Stat (path_join (fst (getWorkspaceStatePath None workspace_world)) x)) \<and>
       \<not> fails workspace_world (Rm (path_join (fst (getWorkspaceStatePath None workspace_world)) x))"
    unfolding p by (simp_all add: workspace_world_fields)
  from clearWorkspaceStorage_ok(1) [OF h]
  show ?thesis unfolding p by simp
qed

lemma clear_items_fails_after:
  assumes "fst (clear_items d pre m w) = Inr n"
    "statSync_isDirectory d x (snd (clear_items d pre m w)) = Inl e \<or>
     statSync_isDirectory d x (snd (clear_items d pre m w)) = Inr True \<and>
     rmSync d x (snd (clear_items d pre m w)) = Inl e"
  shows "clear_items d (pre @ [x]) m w = (Inl e, snd (clear_items d pre m w))"
  using assms by (auto simp add: clear_items_append split_def)

lemma clearWorkspaceStorage_abort_world:
  assumes "existsSync (fst (getWorkspaceStatePath a w)) w"
    "readdirSync (fst (getWorkspaceStatePath a w)) w = Inr (xs @ ys)"
    "fst (clear_items (fst (getWorkspaceStatePath a w)) xs 0
       (info [''Clearing workspace storage...''] (snd (getWorkspaceStatePath a w)))) = Inl e"
  shows "clearWorkspaceStorage a w =
     (None, logError ''Error clearing workspace storage:'' e
        (snd (clear_items (fst (getWorkspaceStatePath a w)) xs 0
           (info [''Clearing workspace storage...''] (snd (getWorkspaceStatePath a w))))))"
proof -
  let ?ws = "fst (getWorkspaceStatePath a w)"
  let ?w2 = "info [''Clearing workspace storage...''] (snd (getWorkspaceStatePath a w))"
  have e: "existsSync ?ws ?w2" using assms(1) by (simp add: existsSync_def)
  have "readdirSync ?ws ?w2 = readdirSync ?ws w" by (simp add: readdirSync_def)
  with assms(2) have l: "readdirSync ?ws ?w2 = Inr (xs @ ys)" by simp
  from assms(3)
  have "clear_items ?ws (xs @ ys) 0 ?w2 = (Inl e, snd (clear_items ?ws xs 0 ?w2))"
    by (simp add: clear_items_append split_def)
  with e l show ?thesis
    by (simp add: clearWorkspaceStorage_def Let_def split_def)
qed

lemma clearWorkspaceStorage_prefix:
  assumes d: "dirs w (fst (getWorkspaceStatePath a w)) = Some (pre @ (x, k) # post)"
    and dist: "distinct (map fst (pre @ (x, k) # post))"
    and rd: "\<not> fails w (Readdir (fst (getWorkspaceStatePath a w)))"
    and ok: "\<forall>y \<in> fst ` set pre.
        \<not> fails w (Stat (path_join (fst (getWorkspaceStatePath a w)) y)) \<and>
        \<not> fails w (Rm (path_join (fst (getWorkspaceStatePath a w)) y))"
    and bad: "fails w (Stat (path_join (fst (getWorkspaceStatePath a w)) x)) \<and>
        e = IOError (Stat (path_join (fst (getWorkspaceStatePath a w)) x)) \<or>
      \<not> fails w (Stat (path_join (fst (getWorkspaceStatePath a w)) x)) \<and> k = Directory \<and>
        fails w (Rm (path_join (fst (getWorkspaceStatePath a w)) x)) \<and>
        e = IOError (Rm (path_join (fst (getWorkspaceStatePath a w)) x))"
  shows "dirs (snd (clearWorkspaceStorage a w)) =
           (dirs w)(fst (getWorkspaceStatePath a w) \<mapsto>
              filter (\<lambda>e. snd e \<noteq> Directory) pre @ (x, k) # post)"
    and "log (snd (clearWorkspaceStorage a w)) =
           log (snd (getWorkspaceStatePath a w)) @
           [LogInfo [''Clearing workspace storage...''],
            LogError ''Error clearing workspace storage:'' e]"
proof -
  let ?ws = "fst (getWorkspaceStatePath a w)"
  let ?w2 = "info [''Clearing workspace storage...''] (snd (getWorkspaceStatePath a w))"
  let ?es = "pre @ (x, k) # post"
  let ?xs = "map fst pre"
  let ?P = "\<lambda>e. \<not> (fst e \<in> set ?xs \<and> snd e = Directory)"
  let ?kept = "filter (\<lambda>e. snd e \<noteq> Directory) pre @ (x, k) # post"
  let ?w1 = "snd (clear_items ?ws ?xs 0 ?w2)"
  from dist have dpre: "distinct ?xs" and xpre: "x \<notin> set ?xs"
    and ppre: "\<forall>e \<in> set post. fst e \<notin> set ?xs" by auto
  have a1: "dirs ?w2 ?ws = Some ?es" using d by simp
  have a3: "set ?xs \<subseteq> fst ` set ?es" by auto
  have a5: "\<forall>y \<in> set ?xs. \<not> fails ?w2 (Stat (path_join ?ws y)) \<and> \<not> fails ?w2 (Rm (path_join ?ws y))"
    using ok by simp
  note run = clear_items_ok [OF a1 dist a3 dpre a5, of 0]
  have f1: "filter ?P pre = filter (\<lambda>e. snd e \<noteq> Directory) pre"
    by (rule filter_cong [OF refl]) simp
  have f2: "filter ?P ((x, k) # post) = (x, k) # post"
    using xpre ppre by (simp add: filter_id_conv)
  have fil: "filter ?P ?es = ?kept"
    unfolding filter_append f1 f2 ..
  from run have n: "fst (clear_items ?ws ?xs 0 ?w2) =
      Inr (0 + length (filter (\<lambda>y. map_of ?es y = Some Directory) ?xs))" by blast
  from run have d1: "dirs ?w1 = (dirs w)(?ws \<mapsto> ?kept)"
    unfolding fil by simp
  have m: "map_of ?kept x = Some k"
  proof -
    have "x \<notin> fst ` set (filter (\<lambda>e. snd e \<noteq> Directory) pre)" using xpre by auto
    then have "map_of (filter (\<lambda>e. snd e \<noteq> Directory) pre) x = None"
      by (simp add: map_of_eq_None_iff)
    then show ?thesis by (simp add: map_add_def)
  qed
  have s: "statSync_isDirectory ?ws x ?w1 = Inl e \<or>
      statSync_isDirectory ?ws x ?w1 = Inr True \<and> rmSync ?ws x ?w1 = Inl e"
    using bad d1 m by (auto simp add: statSync_isDirectory_def rmSync_def Let_def)
  from clear_items_fails_after [OF n s]
  have "fst (clear_items ?ws (?xs @ [x]) 0 ?w2) = Inl e"
    and w1: "snd (clear_items ?ws (?xs @ [x]) 0 ?w2) = ?w1" by simp_all
  moreover have "existsSync ?ws w" using d by (simp add: existsSync_def)
  moreover have "readdirSync ?ws w = Inr ((?xs @ [x]) @ map fst post)"
    using d rd by (simp add: readdirSync_def)
  ultimately have c: "clearWorkspaceStorage a w =
      (None, logError ''Error clearing workspace storage:'' e
         (snd (clear_items ?ws (?xs @ [x]) 0 ?w2)))"
    by (intro clearWorkspaceStorage_abort_world)
  show "dirs (snd (clearWorkspaceStorage a w)) = (dirs w)(?ws \<mapsto> ?kept)"
    unfolding c w1 using d1 by simp
  show "log (snd (clearWorkspaceStorage a w)) =
           log (snd (getWorkspaceStatePath a w)) @
           [LogInfo [''Clearing workspace storage...''],
            LogError ''Error clearing workspace storage:'' e]"
    unfolding c w1 by simp
qed

text \<open>
  C9, as amended. Let the workspace-storage directory list the entries \<open>pre\<close>, then
  \<open>x\<close>, then \<open>post\<close>, where no \<^verbatim>\<open>statSync\<close> or \<^verbatim>\<open>rmSync\<close> fails on \<open>pre\<close> and
  either \<^verbatim>\<open>statSync\<close> fails on \<open>x\<close>, or \<open>x\<close> is a directory and \<^verbatim>\<open>rmSync\<close> fails on it.
  Then \<^verbatim>\<open>clearWorkspaceStorage\<close> leaves the directory holding the entries of \<open>pre\<close> that
  are not directories, then \<open>x\<close>, then all of \<open>post\<close>: the subdirectories before \<open>x\<close>
  are removed, \<open>x\<close> and every entry after it are untouched. The error is caught and
  logged, not thrown: the log gains the opening line and the error and no line with a
  count, and nothing is returned.
\<close>

theorem clearWorkspaceStorage_stops_at_failure:
  assumes "dirs w (fst (getWorkspaceStatePath a w)) = Some (pre @ (x, k) # post)"
    and "distinct (map fst (pre @ (x, k) # post))"
    and "\<not> fails w (Readdir (fst (getWorkspaceStatePath a w)))"
    and "\<forall>y \<in> fst ` set pre.
        \<not> fails w (Stat (path_join (fst (getWorkspaceStatePath a w)) y)) \<and>
        \<not> fails w (Rm (path_join (fst (getWorkspaceStatePath a w)) y))"
    and "fails w (Stat (path_join (fst (getWorkspaceStatePath a w)) x)) \<and>
        e = IOError (Stat (path_join (fst (getWorkspaceStatePath a w)) x)) \<or>
      \<not> fails w (Stat (path_join (fst (getWorkspaceStatePath a w)) x)) \<and> k = Directory \<and>
        fails w (Rm (path_join (fst (getWorkspaceStatePath a w)) x)) \<and>
        e = IOError (Rm (path_join (fst (getWorkspaceStatePath a w)) x))"
  shows "fst (clearWorkspaceStorage a w) = None \<and>
         dirs (snd (clearWorkspaceStorage a w)) =
           (dirs w)(fst (getWorkspaceStatePath a w) \<mapsto>
              filter (\<lambda>e. snd e \<noteq> Directory) pre @ (x, k) # post) \<and>
         files (snd (clearWorkspaceStorage a w)) = files w \<and>
         log (snd (clearWorkspaceStorage a w)) =
           log (snd (getWorkspaceStatePath a w)) @
           [LogInfo [''Clearing workspace storage...''],
            LogError ''Error clearing workspace storage:'' e]"
  using clearWorkspaceStorage_prefix [OF assms] by simp

lemma blocked_first_entry:
  "fst (clear_items ''/home/u/.vscode/User/workspaceStorage'' [''a''] 0 blocked_world) = Inr 1"
  "dirs (snd (clear_items ''/home/u/.vscode/User/workspaceStorage'' [''a''] 0 blocked_world)) =
     [''/home/u/.vscode/User/workspaceStorage'' \<mapsto> [(''b'', Directory), (''c'', Directory)]]"
  by (simp_all add: statSync_isDirectory_def rmSync_def Let_def blocked_world_fields path_join_def)

lemma blocked_second_entry:
  "statSync_isDirectory ''/home/u/.vscode/User/workspaceStorage'' ''b''
     (snd (clear_items ''/home/u/.vscode/User/workspaceStorage'' [''a''] 0 blocked_world)) = Inr True"
  "rmSync ''/home/u/.vscode/User/workspaceStorage'' ''b''
     (snd (clear_items ''/home/u/.vscode/User/workspaceStorage'' [''a''] 0 blocked_world)) =
     Inl (IOError (Rm ''/home/u/.vscode/User/workspaceStorage/b''))"
  by (simp_all add: statSync_isDirectory_def rmSync_def Let_def blocked_first_entry
      blocked_world_fields path_join_def)

lemma blocked_listing:
  "existsSync ''/home/u/.vscode/User/workspaceStorage'' blocked_world"
  "readdirSync ''/home/u/.vscode/User/workspaceStorage'' blocked_world = Inr ([''a''] @ ''b'' # [''c''])"
  by (simp_all add: existsSync_def readdirSync_def blocked_world_fields)

theorem clearWorkspaceStorage_stops_at_failure_witness:
  "dirs blocked_world ''/home/u/.vscode/User/workspaceStorage'' =
     Some [(''a'', Directory), (''b'', Directory), (''c'', Directory)] \<and>
   fails blocked_world (Rm ''/home/u/.vscode/User/workspaceStorage/b'') \<and>
   dirs (snd (clearWorkspaceStorage None blocked_world)) =
     [''/home/u/.vscode/User/workspaceStorage'' \<mapsto> [(''b'', Directory), (''c'', Directory)]] \<and>
   log (snd (clearWorkspaceStorage None blocked_world)) =
     log (snd (getWorkspaceStatePath None blocked_world)) @
     [LogInfo [''Clearing workspace storage...''],
      LogError ''Error clearing workspace storage:''
        (IOError (Rm ''/home/u/.vscode/User/workspaceStorage/b''))]"
proof -
  let ?ws = "''/home/u/.vscode/User/workspaceStorage''"
  let ?e = "IOError (Rm ''/home/u/.vscode/User/workspaceStorage/b'')"
  have p: "fst (getWorkspaceStatePath None blocked_world) = ?ws"
    by (rule default_workspace_path) (simp_all add: blocked_world_fields)
  have h: "dirs blocked_world (fst (getWorkspaceStatePath None blocked_world)) =
      Some ([(''a'', Directory)] @ (''b'', Directory) # [(''c'', Directory)])"
    "distinct (map fst ([(''a'', Directory)] @ (''b'', Directory) # [(''c'', Directory)]))"
    "\<not> fails blocked_world (Readdir (fst (getWorkspaceStatePath None blocked_world)))"
    "\<forall>y \<in> fst ` set [(''a'', Directory)].
        \<not> fails blocked_world (Stat (path_join (fst (getWorkspaceStatePath None blocked_world)) y)) \<and>
        \<not> fails blocked_world (Rm (path_join (fst (getWorkspaceStatePath None blocked_world)) y))"
    "fails blocked_world (Stat (path_join (fst (getWorkspaceStatePath None blocked_world)) ''b'')) \<and>
        ?e = IOError (Stat (path_join (fst (getWorkspaceStatePath None blocked_world)) ''b'')) \<or>
      \<not> fails blocked_world (Stat (path_join (fst (getWorkspaceStatePath None blocked_world)) ''b'')) \<and>
        Directory = Directory \<and>
        fails blocked_world (Rm (path_join (fst (getWorkspaceStatePath None blocked_world)) ''b'')) \<and>
        ?e = IOError (Rm (path_join (fst (getWorkspaceStatePath None blocked_world)) ''b''))"
    unfolding p by (simp_all add: blocked_world_fields path_join_def)
  have d: "dirs blocked_world ?ws =
      Some [(''a'', Directory), (''b'', Directory), (''c'', Directory)]"
    "fails blocked_world (Rm ''/home/u/.vscode/User/workspaceStorage/b'')"
    by (simp_all add: blocked_world_fields)
  from clearWorkspaceStorage_stops_at_failure [OF h] d show ?thesis
    unfolding p by (simp add: blocked_world_fields)
qed

text \<open>
  Against C9 as stated: of three subdirectories \<open>a\<close>, \<open>b\<close>, \<open>c\<close>, where removing \<open>b\<close>
  fails and nothing else does, \<open>a\<close> is removed and \<open>c\<close> is left in place: its removal
  is not attempted, and the log ends with the error, not with a count.
\<close>

theorem clearWorkspaceStorage_independent_counterexample:
  "dirs (snd (clearWorkspaceStorage None blocked_world))
     ''/home/u/.vscode/User/workspaceStorage'' = Some [(''b'', Directory), (''c'', Directory)] \<and>
   \<not> fails blocked_world (Stat ''/home/u/.vscode/User/workspaceStorage/c'') \<and>
   \<not> fails blocked_world (Rm ''/home/u/.vscode/User/workspaceStorage/c'') \<and>
   last (log (snd (clearWorkspaceStorage None blocked_world))) =
     LogError ''Error clearing workspace storage:''
       (IOError (Rm ''/home/u/.vscode/User/workspaceStorage/b''))"
proof -
  let ?ws = "''/home/u/.vscode/User/workspaceStorage''"
  let ?e = "IOError (Rm ''/home/u/.vscode/User/workspaceStorage/b'')"
  have p: "fst (getWorkspaceStatePath None blocked_world) = ?ws"
    by (rule default_workspace_path) (simp_all add: blocked_world_fields)
  have two: "clear_items ?ws ([''a''] @ [''b'']) 0 blocked_world =
      (Inl ?e, snd (clear_items ?ws [''a''] 0 blocked_world))"
    by (rule clear_items_fails_after [OF blocked_first_entry(1)])
      (simp only: blocked_second_entry, simp)
  have h: "existsSync (fst (getWorkspaceStatePath None blocked_world)) blocked_world"
    "readdirSync (fst (getWorkspaceStatePath None blocked_world)) blocked_world =
       Inr (([''a''] @ [''b'']) @ [''c''])"
    "fst (clear_items (fst (getWorkspaceStatePath None blocked_world)) ([''a''] @ [''b'']) 0
       blocked_world) = Inl ?e"
    unfolding p two by (simp_all add: blocked_listing)
  note r = clearWorkspaceStorage_abort [OF h]
  have "dirs (snd (clearWorkspaceStorage None blocked_world)) =
      [?ws \<mapsto> [(''b'', Directory), (''c'', Directory)]]"
    using r(1) unfolding p two by (simp only: snd_conv blocked_first_entry(2))
  with r(2) show ?thesis
    by (simp add: blocked_world_fields)
qed

subsection \<open>The orchestrator\<close>

lemma same_state_refl [simp]: "same_state w w"
  by (simp add: same_state_def)

lemma same_state_info [simp]:
  "same_state w (info m w')= same_state w w'" "same_state (info m w) w' = same_state w w'"
  "same_state w (logError s e w')= same_state w w'"
  "same_state (logError s e w) w' = same_state w w'"
  by (auto simp add: same_state_def)

lemma same_state_trans: "same_state w w' \<Longrightarrow> same_state w' w'' \<Longrightarrow> same_state w w''"
  by (simp add: same_state_def)

lemma resetDeviceIdentifiers_drawn [simp]:
  "drawn (snd (resetDeviceIdentifiers a w)) = drawn w + 93"
  by (simp add: resetDeviceIdentifiers_def split_def Let_def split: sum.splits prod.splits)

lemma reset_same_state:
  assumes "same_state w w'"
  shows "fst (resetDeviceIdentifiers a w') = fst (resetDeviceIdentifiers a w)"
    and "same_state (snd (resetDeviceIdentifiers a w)) (snd (resetDeviceIdentifiers a w'))"
proof -
  from assms have f: "env w' = env w" "homeDir w' = homeDir w" "files w' = files w"
    "dirs w' = dirs w" "fails w' = fails w" "random w' = random w" "drawn w' = drawn w"
    "now w' = now w" by (simp_all add: same_state_def)
  have o: "reset_outcome p w' = reset_outcome p w" for p
    using f by (intro reset_outcome_cong)
  have i: "fresh_ids w' = fresh_ids w" using f by (intro fresh_ids_cong)
  show "fst (resetDeviceIdentifiers a w') = fst (resetDeviceIdentifiers a w)"
    by (simp add: resetDeviceIdentifiers_fst o i f split: sum.splits)
  show "same_state (snd (resetDeviceIdentifiers a w)) (snd (resetDeviceIdentifiers a w'))"
    by (simp add: same_state_def resetDeviceIdentifiers_files o f
        split: sum.splits option.splits)
qed

lemma cleanTelemetryData_same_state:
  assumes "same_state w w'"
  shows "same_state (cleanTelemetryData a w) (cleanTelemetryData a w')"
  using assms
  by (simp add: same_state_def cleanTelemetryData_files backup_path_def Let_def
      split: option.splits)

lemma clearWorkspaceStorage_dirs_cong:
  assumes "same_state w w'"
  shows "dirs (snd (clearWorkspaceStorage a w')) = dirs (snd (clearWorkspaceStorage a w))"
proof -
  from assms have f: "env w' = env w" "homeDir w' = homeDir w" "dirs w' = dirs w"
    "fails w' = fails w" "files w' = files w" by (simp_all add: same_state_def)
  let ?ws = "fst (getWorkspaceStatePath a w)"
  let ?v = "info [''Clearing workspace storage...''] (snd (getWorkspaceStatePath a w))"
  let ?v' = "info [''Clearing workspace storage...''] (snd (getWorkspaceStatePath a w'))"
  have p: "fst (getWorkspaceStatePath a w') = ?ws" by (simp add: f)
  have c: "fst (clear_items ?ws xs 0 ?v') = fst (clear_items ?ws xs 0 ?v) \<and>
      dirs (snd (clear_items ?ws xs 0 ?v')) = dirs (snd (clear_items ?ws xs 0 ?v))" for xs
    by (rule clear_items_cong) (simp_all add: f)
  have e: "existsSync ?ws ?v' = existsSync ?ws ?v" by (simp add: existsSync_def f)
  have l: "readdirSync ?ws ?v' = readdirSync ?ws ?v" by (simp add: readdirSync_def f)
  show ?thesis
    unfolding clearWorkspaceStorage_def Let_def split_def p e l
    using c by (simp add: f split: sum.splits)
qed

lemma clearWorkspaceStorage_same_state:
  assumes "same_state w w'"
  shows "same_state (snd (clearWorkspaceStorage a w)) (snd (clearWorkspaceStorage a w'))"
  using assms clearWorkspaceStorage_dirs_cong [OF assms, of a]
  by (simp add: same_state_def)

lemma refresh_fail:
  assumes "enabled True (resetIdentifiers opts)" "fst (resetDeviceIdentifiers a w) = Inl e"
  shows "fst (refreshVSCodeDevice a opts w) = Inl e"
    and "same_state (snd (resetDeviceIdentifiers a w)) (snd (refreshVSCodeDevice a opts w))"
    and "last (log (snd (refreshVSCodeDevice a opts w))) =
           LogError ''Error during device refresh:'' e"
proof -
  let ?w1 = "info [''Starting VS Code device refresh...''] w"
  have s: "same_state w ?w1" by simp
  note r = reset_same_state [OF s, of a]
  from r(1) assms(2) have f: "fst (resetDeviceIdentifiers a ?w1) = Inl e" by simp
  have c: "refreshVSCodeDevice a opts w =
      (Inl e, logError ''Error during device refresh:'' e (snd (resetDeviceIdentifiers a ?w1)))"
    using assms(1) f by (simp add: refreshVSCodeDevice_def Let_def split_def)
  show "fst (refreshVSCodeDevice a opts w) = Inl e" unfolding c by simp
  show "same_state (snd (resetDeviceIdentifiers a w)) (snd (refreshVSCodeDevice a opts w))"
    unfolding c using r(2) by simp
  show "last (log (snd (refreshVSCodeDevice a opts w))) =
           LogError ''Error during device refresh:'' e"
    unfolding c by simp
qed

lemma refresh_ok:
  assumes "fst (resetDeviceIdentifiers a w) = Inr ids \<or> \<not> enabled True (resetIdentifiers opts)"
  shows "fst (refreshVSCodeDevice a opts w) =
           Inr \<lparr>identifiers = (if enabled True (resetIdentifiers opts) then Some ids else None),
                telemetryCleared = (if enabled True (cleanTelemetry opts) then Some True else None),
                workspaceCleared = (if enabled False (clearWorkspace opts) then Some True else None),
                cacheCleared = (if enabled True (clearCache opts) then Some True else None)\<rparr>"
    and "same_state (after_workspace a opts w) (snd (refreshVSCodeDevice a opts w))"
proof -
  let ?w1 = "info [''Starting VS Code device refresh...''] w"
  let ?W2 = "if enabled True (resetIdentifiers opts) then snd (resetDeviceIdentifiers a ?w1) else ?w1"
  let ?W3 = "if enabled True (cleanTelemetry opts) then cleanTelemetryData a ?W2 else ?W2"
  let ?W4 = "if enabled False (clearWorkspace opts) then snd (clearWorkspaceStorage a ?W3) else ?W3"
  have s: "same_state w ?w1" by simp
  note r = reset_same_state [OF s, of a]
  from r(1) assms
  have f: "fst (resetDeviceIdentifiers a ?w1) = Inr ids \<or> \<not> enabled True (resetIdentifiers opts)"
    by simp
  have s2: "same_state (after_reset a opts w) ?W2"
    using r(2) by (simp add: after_reset_def)
  have s3: "same_state (after_telemetry a opts w) ?W3"
    using s2 cleanTelemetryData_same_state [OF s2, of a] by (simp add: after_telemetry_def)
  have s4: "same_state (after_workspace a opts w) ?W4"
    using s3 clearWorkspaceStorage_same_state [OF s3, of a] by (simp add: after_workspace_def)
  have c: "snd (refreshVSCodeDevice a opts w) =
      info [''VS Code device refresh completed successfully''] ?W4"
    using f by (auto simp add: refreshVSCodeDevice_def Let_def split_def)
  show "same_state (after_workspace a opts w) (snd (refreshVSCodeDevice a opts w))"
    unfolding c using s4 by simp
  show "fst (refreshVSCodeDevice a opts w) =
           Inr \<lparr>identifiers = (if enabled True (resetIdentifiers opts) then Some ids else None),
                telemetryCleared = (if enabled True (cleanTelemetry opts) then Some True else None),
                workspaceCleared = (if enabled False (clearWorkspace opts) then Some True else None),
                cacheCleared = (if enabled True (clearCache opts) then Some True else None)\<rparr>"
    using f by (auto simp add: refreshVSCodeDevice_def Let_def split_def no_results_def)
qed

lemma refresh_world_clearCache:
  "snd (refreshVSCodeDevice a (opts\<lparr>clearCache := c\<rparr>) w) = snd (refreshVSCodeDevice a opts w)"
  by (simp add: refreshVSCodeDevice_def Let_def split_def split: sum.splits)

lemma reset_fail_files:
  "fst (resetDeviceIdentifiers a w) = Inl e \<Longrightarrow> files (snd (resetDeviceIdentifiers a w)) = files w"
  by (simp add: resetDeviceIdentifiers_fst resetDeviceIdentifiers_files split: sum.splits)

lemma same_state_files: "same_state w w' \<Longrightarrow> files w' = files w \<and> dirs w' = dirs w"
  by (simp add: same_state_def)

lemma reset_fail_log:
  assumes "fst (resetDeviceIdentifiers a w) = Inl e"
  shows "last (log (snd (resetDeviceIdentifiers a w))) =
         LogError ''Error resetting device identifiers:'' e"
  using assms
  by (simp add: resetDeviceIdentifiers_def split_def Let_def split: sum.splits)

lemma refresh_fail_world:
  assumes "enabled True (resetIdentifiers opts)" "fst (resetDeviceIdentifiers a w) = Inl e"
  shows "snd (refreshVSCodeDevice a opts w) =
           logError ''Error during device refresh:'' e
             (snd (resetDeviceIdentifiers a (info [''Starting VS Code device refresh...''] w)))"
    and "last (log (snd (resetDeviceIdentifiers a
           (info [''Starting VS Code device refresh...''] w)))) =
         LogError ''Error resetting device identifiers:'' e"
proof -
  let ?w1 = "info [''Starting VS Code device refresh...''] w"
  have s: "same_state w ?w1" by simp
  from reset_same_state(1) [OF s, of a] assms(2)
  have f: "fst (resetDeviceIdentifiers a ?w1) = Inl e" by simp
  show "snd (refreshVSCodeDevice a opts w) =
      logError ''Error during device refresh:'' e (snd (resetDeviceIdentifiers a ?w1))"
    using assms(1) f by (simp add: refreshVSCodeDevice_def Let_def split_def)
  show "last (log (snd (resetDeviceIdentifiers a ?w1))) =
      LogError ''Error resetting device identifiers:'' e"
    using f by (rule reset_fail_log)
qed

lemma refresh_ok_world:
  assumes "fst (resetDeviceIdentifiers a w) = Inr ids \<or> \<not> enabled True (resetIdentifiers opts)"
  shows "snd (refreshVSCodeDevice a opts w) =
           info [''VS Code device refresh completed successfully'']
             (after_workspace a opts (info [''Starting VS Code device refresh...''] w))"
proof -
  let ?w1 = "info [''Starting VS Code device refresh...''] w"
  have s: "same_state w ?w1" by simp
  from reset_same_state(1) [OF s, of a] assms
  have f: "fst (resetDeviceIdentifiers a ?w1) = Inr ids \<or> \<not> enabled True (resetIdentifiers opts)"
    by simp
  then show ?thesis
    by (auto simp add: refreshVSCodeDevice_def Let_def split_def after_workspace_def
        after_telemetry_def after_reset_def)
qed

lemma cleanTelemetryData_catches:
  "existsSync (fst (getTelemetryPath a v)) v \<Longrightarrow>
   copyFileSync (fst (getTelemetryPath a v)) (backup_path (fst (getTelemetryPath a v)) v) v = Inl e \<Longrightarrow>
   last (log (cleanTelemetryData a v)) = LogError ''Error cleaning telemetry:'' e"
  "copyFileSync (fst (getTelemetryPath a v)) (backup_path (fst (getTelemetryPath a v)) v) v = Inr v' \<Longrightarrow>
   unlinkSync (fst (getTelemetryPath a v)) v' = Inl e \<Longrightarrow>
   last (log (cleanTelemetryData a v)) = LogError ''Error cleaning telemetry:'' e"
  by (auto simp add: cleanTelemetryData_def Let_def split_def existsSync_def copyFileSync_def
      unlinkSync_def backup_path_def split: option.splits if_splits)

lemma clearWorkspaceStorage_catches:
  "existsSync (fst (getWorkspaceStatePath a v)) v \<Longrightarrow>
   readdirSync (fst (getWorkspaceStatePath a v)) v = Inl e \<Longrightarrow>
   last (log (snd (clearWorkspaceStorage a v))) = LogError ''Error clearing workspace storage:'' e"
  "existsSync (fst (getWorkspaceStatePath a v)) v \<Longrightarrow>
   readdirSync (fst (getWorkspaceStatePath a v)) v = Inr items \<Longrightarrow>
   fst (clear_items (fst (getWorkspaceStatePath a v)) items 0 v) = Inl e \<Longrightarrow>
   last (log (snd (clearWorkspaceStorage a v))) = LogError ''Error clearing workspace storage:'' e"
proof -
  let ?ws = "fst (getWorkspaceStatePath a v)"
  let ?w2 = "info [''Clearing workspace storage...''] (snd (getWorkspaceStatePath a v))"
  have r: "readdirSync ?ws ?w2 = readdirSync ?ws v" by (simp add: readdirSync_def)
  have x: "existsSync ?ws ?w2 = existsSync ?ws v" by (simp add: existsSync_def)
  show "last (log (snd (clearWorkspaceStorage a v))) =
      LogError ''Error clearing workspace storage:'' e"
    if "existsSync ?ws v" "readdirSync ?ws v = Inl e"
    using that r x by (simp add: clearWorkspaceStorage_def Let_def split_def)
  show "last (log (snd (clearWorkspaceStorage a v))) =
      LogError ''Error clearing workspace storage:'' e"
    if "existsSync ?ws v" "readdirSync ?ws v = Inr items" "fst (clear_items ?ws items 0 v) = Inl e"
    using clearWorkspaceStorage_abort(2) [of a v items "[]" e] that by simp
qed

text \<open>
  C1, as amended. With \<open>w1\<close> the world after the opening log line, \<open>w2\<close> after the
  reset if enabled, \<open>w3\<close> after telemetry cleaning of \<open>w2\<close> if enabled and \<open>w4\<close> after
  workspace clearing of \<open>w3\<close> if enabled:

  \<^item> when the reset is enabled and fails with \<open>e\<close>, \<^verbatim>\<open>refreshVSCodeDevice\<close> fails with
    \<open>e\<close>; the world it leaves is \<open>w2\<close> with one more log line, the refresh's own error
    line, which follows the error line of the reset; no file and no directory has
    changed, and no later step has run or logged;
  \<^item> when the reset is disabled or succeeds, the result holds the identifiers and one
    flag per enabled step, and the world left is \<open>w4\<close> with the closing log line: every
    enabled step has run, in the order reset, telemetry, workspace;
  \<^item> in any world \<open>v\<close>, an error of the copy or the unlink in \<^verbatim>\<open>cleanTelemetryData\<close>, and
    an error of the listing or of the loop in \<^verbatim>\<open>clearWorkspaceStorage\<close>, ends as the last
    line of that operation's log; these two operations return no error.

  The result has no list of errors.
\<close>

theorem refresh_stops_on_reset_failure_only:
  "let w1 = info [''Starting VS Code device refresh...''] w;
       w2 = (if enabled True (resetIdentifiers opts) then snd (resetDeviceIdentifiers a w1) else w1);
       w3 = (if enabled True (cleanTelemetry opts) then cleanTelemetryData a w2 else w2);
       w4 = (if enabled False (clearWorkspace opts) then snd (clearWorkspaceStorage a w3) else w3);
       t = fst (getTelemetryPath a v);
       ws = fst (getWorkspaceStatePath a v)
   in (enabled True (resetIdentifiers opts) \<and> fst (resetDeviceIdentifiers a w) = Inl e \<longrightarrow>
         fst (refreshVSCodeDevice a opts w) = Inl e \<and>
         snd (refreshVSCodeDevice a opts w) = logError ''Error during device refresh:'' e w2 \<and>
         last (log w2) = LogError ''Error resetting device identifiers:'' e \<and>
         same_state (snd (resetDeviceIdentifiers a w)) (snd (refreshVSCodeDevice a opts w)) \<and>
         files (snd (refreshVSCodeDevice a opts w)) = files w \<and>
         dirs (snd (refreshVSCodeDevice a opts w)) = dirs w) \<and>
      (fst (resetDeviceIdentifiers a w) = Inr ids \<or> \<not> enabled True (resetIdentifiers opts) \<longrightarrow>
         fst (refreshVSCodeDevice a opts w) =
           Inr \<lparr>identifiers = (if enabled True (resetIdentifiers opts) then Some ids else None),
                telemetryCleared = (if enabled True (cleanTelemetry opts) then Some True else None),
                workspaceCleared = (if enabled False (clearWorkspace opts) then Some True else None),
                cacheCleared = (if enabled True (clearCache opts) then Some True else None)\<rparr> \<and>
         snd (refreshVSCodeDevice a opts w) =
           info [''VS Code device refresh completed successfully''] w4 \<and>
         same_state (after_workspace a opts w) (snd (refreshVSCodeDevice a opts w))) \<and>
      (existsSync t v \<and> copyFileSync t (backup_path t v) v = Inl e' \<longrightarrow>
         last (log (cleanTelemetryData a v)) = LogError ''Error cleaning telemetry:'' e') \<and>
      (copyFileSync t (backup_path t v) v = Inr v' \<and> unlinkSync t v' = Inl e' \<longrightarrow>
         last (log (cleanTelemetryData a v)) = LogError ''Error cleaning telemetry:'' e') \<and>
      (existsSync ws v \<and> readdirSync ws v = Inl e' \<longrightarrow>
         last (log (snd (clearWorkspaceStorage a v))) =
           LogError ''Error clearing workspace storage:'' e') \<and>
      (existsSync ws v \<and> readdirSync ws v = Inr items \<and>
         fst (clear_items ws items 0 v) = Inl e' \<longrightarrow>
         last (log (snd (clearWorkspaceStorage a v))) =
           LogError ''Error clearing workspace storage:'' e')"
proof -
  let ?w1 = "info [''Starting VS Code device refresh...''] w"
  let ?w2 = "if enabled True (resetIdentifiers opts) then snd (resetDeviceIdentifiers a ?w1) else ?w1"
  let ?w3 = "if enabled True (cleanTelemetry opts) then cleanTelemetryData a ?w2 else ?w2"
  let ?w4 = "if enabled False (clearWorkspace opts) then snd (clearWorkspaceStorage a ?w3) else ?w3"
  let ?t = "fst (getTelemetryPath a v)"
  let ?ws = "fst (getWorkspaceStatePath a v)"
  have A: "enabled True (resetIdentifiers opts) \<and> fst (resetDeviceIdentifiers a w) = Inl e \<longrightarrow>
      fst (refreshVSCodeDevice a opts w) = Inl e \<and>
      snd (refreshVSCodeDevice a opts w) = logError ''Error during device refresh:'' e ?w2 \<and>
      last (log ?w2) = LogError ''Error resetting device identifiers:'' e \<and>
      same_state (snd (resetDeviceIdentifiers a w)) (snd (refreshVSCodeDevice a opts w)) \<and>
      files (snd (refreshVSCodeDevice a opts w)) = files w \<and>
      dirs (snd (refreshVSCodeDevice a opts w)) = dirs w"
  proof
    assume h: "enabled True (resetIdentifiers opts) \<and> fst (resetDeviceIdentifiers a w) = Inl e"
    then have en: "enabled True (resetIdentifiers opts)"
      and fl: "fst (resetDeviceIdentifiers a w) = Inl e" by simp_all
    from en have w2: "?w2 = snd (resetDeviceIdentifiers a ?w1)" by simp
    note r = refresh_fail [OF en fl]
    note q = refresh_fail_world [OF en fl]
    from same_state_files [OF r(2)] reset_fail_files [OF fl]
    have f: "files (snd (refreshVSCodeDevice a opts w)) = files w"
      "dirs (snd (refreshVSCodeDevice a opts w)) = dirs w" by simp_all
    show "fst (refreshVSCodeDevice a opts w) = Inl e \<and>
      snd (refreshVSCodeDevice a opts w) = logError ''Error during device refresh:'' e ?w2 \<and>
      last (log ?w2) = LogError ''Error resetting device identifiers:'' e \<and>
      same_state (snd (resetDeviceIdentifiers a w)) (snd (refreshVSCodeDevice a opts w)) \<and>
      files (snd (refreshVSCodeDevice a opts w)) = files w \<and>
      dirs (snd (refreshVSCodeDevice a opts w)) = dirs w"
      unfolding w2 by (intro conjI r(1) r(2) q f)
  qed
  have w4: "after_workspace a opts ?w1 = ?w4"
    unfolding after_workspace_def after_telemetry_def after_reset_def ..
  have B: "fst (resetDeviceIdentifiers a w) = Inr ids \<or> \<not> enabled True (resetIdentifiers opts) \<longrightarrow>
      fst (refreshVSCodeDevice a opts w) =
        Inr \<lparr>identifiers = (if enabled True (resetIdentifiers opts) then Some ids else None),
             telemetryCleared = (if enabled True (cleanTelemetry opts) then Some True else None),
             workspaceCleared = (if enabled False (clearWorkspace opts) then Some True else None),
             cacheCleared = (if enabled True (clearCache opts) then Some True else None)\<rparr> \<and>
      snd (refreshVSCodeDevice a opts w) =
        info [''VS Code device refresh completed successfully''] ?w4 \<and>
      same_state (after_workspace a opts w) (snd (refreshVSCodeDevice a opts w))"
  proof
    assume h: "fst (resetDeviceIdentifiers a w) = Inr ids \<or> \<not> enabled True (resetIdentifiers opts)"
    show "fst (refreshVSCodeDevice a opts w) =
        Inr \<lparr>identifiers = (if enabled True (resetIdentifiers opts) then Some ids else None),
             telemetryCleared = (if enabled True (cleanTelemetry opts) then Some True else None),
             workspaceCleared = (if enabled False (clearWorkspace opts) then Some True else None),
             cacheCleared = (if enabled True (clearCache opts) then Some True else None)\<rparr> \<and>
      snd (refreshVSCodeDevice a opts w) =
        info [''VS Code device refresh completed successfully''] ?w4 \<and>
      same_state (after_workspace a opts w) (snd (refreshVSCodeDevice a opts w))"
      unfolding w4 [symmetric]
      by (intro conjI refresh_ok(1) [OF h] refresh_ok(2) [OF h] refresh_ok_world [OF h])
  qed
  have C1: "existsSync ?t v \<and> copyFileSync ?t (backup_path ?t v) v = Inl e' \<longrightarrow>
      last (log (cleanTelemetryData a v)) = LogError ''Error cleaning telemetry:'' e'"
    using cleanTelemetryData_catches(1) [of a v e'] by blast
  have C2: "copyFileSync ?t (backup_path ?t v) v = Inr v' \<and> unlinkSync ?t v' = Inl e' \<longrightarrow>
      last (log (cleanTelemetryData a v)) = LogError ''Error cleaning telemetry:'' e'"
    using cleanTelemetryData_catches(2) [of a v v' e'] by blast
  have C3: "existsSync ?ws v \<and> readdirSync ?ws v = Inl e' \<longrightarrow>
      last (log (snd (clearWorkspaceStorage a v))) =
        LogError ''Error clearing workspace storage:'' e'"
    using clearWorkspaceStorage_catches(1) [of a v e'] by blast
  have C4: "existsSync ?ws v \<and> readdirSync ?ws v = Inr items \<and>
      fst (clear_items ?ws items 0 v) = Inl e' \<longrightarrow>
      last (log (snd (clearWorkspaceStorage a v))) =
        LogError ''Error clearing workspace storage:'' e'"
    using clearWorkspaceStorage_catches(2) [of a v items e'] by blast
  show ?thesis unfolding Let_def by (intro conjI A B C1 C2 C3 C4)
qed

lemma broken_world_fields:
  "env broken_world = (\<lambda>_. None)" "homeDir broken_world = ''/home/u''"
  "files broken_world =
     [''/home/u/.vscode/User/globalStorage/storage.json'' \<mapsto> Raw ''{'',
      ''/home/u/.vscode/User/globalStorage/state.vscdb'' \<mapsto> Raw ''db'']"
  "dirs broken_world = (\<lambda>_. None)" "fails broken_world = (\<lambda>_. False)"
  by (simp_all add: broken_world_def half_world_def)

lemma broken_world_reset:
  "fst (resetDeviceIdentifiers None broken_world) = Inl ParseError"
  by (simp add: resetDeviceIdentifiers_fst reset_outcome_def existsSync_def readFileSync_def
      JSON_parse_def broken_world_fields default_global_storage path_join_def)

lemma all_defaults_enabled:
  "enabled True (resetIdentifiers all_defaults)" "enabled True (cleanTelemetry all_defaults)"
  "\<not> enabled False (clearWorkspace all_defaults)" "enabled True (clearCache all_defaults)"
  by (simp_all add: all_defaults_def enabled_def)

lemma jammed_world_fields:
  "env jammed_world = (\<lambda>_. None)" "homeDir jammed_world = ''/home/u''"
  "files jammed_world = [''/home/u/.vscode/User/globalStorage/state.vscdb'' \<mapsto> Raw ''db'']"
  "dirs jammed_world = (\<lambda>_. None)" "now jammed_world = 7"
  "fails jammed_world = (\<lambda>c. c = Copy ''/home/u/.vscode/User/globalStorage/state.vscdb''
       ''/home/u/.vscode/User/globalStorage/state.vscdb.backup.7'')"
  by (simp_all add: jammed_world_def telemetry_world_def half_world_def)

lemma default_telemetry_path:
  "env w = (\<lambda>_. None) \<Longrightarrow> homeDir w = ''/home/u'' \<Longrightarrow>
   fst (getTelemetryPath None w) = ''/home/u/.vscode/User/globalStorage/state.vscdb''"
  by (simp add: default_global_storage path_join_def)

lemma backup_path_7:
  "now w = 7 \<Longrightarrow>
   backup_path ''/home/u/.vscode/User/globalStorage/state.vscdb'' w =
     ''/home/u/.vscode/User/globalStorage/state.vscdb.backup.7''"
  by (simp add: backup_path_def toString_def digits_of_small digit_char_def)

theorem refresh_stops_on_reset_failure_only_witness:
  "fst (refreshVSCodeDevice None all_defaults broken_world) = Inl ParseError \<and>
   last (log (snd (refreshVSCodeDevice None all_defaults broken_world))) =
     LogError ''Error during device refresh:'' ParseError \<and>
   fst (refreshVSCodeDevice None (all_defaults\<lparr>resetIdentifiers := Some False\<rparr>) jammed_world) =
     Inr \<lparr>identifiers = None, telemetryCleared = Some True, workspaceCleared = None,
          cacheCleared = Some True\<rparr> \<and>
   last (log (cleanTelemetryData None jammed_world)) =
     LogError ''Error cleaning telemetry:''
       (IOError (Copy ''/home/u/.vscode/User/globalStorage/state.vscdb''
          ''/home/u/.vscode/User/globalStorage/state.vscdb.backup.7''))"
proof -
  let ?t = "''/home/u/.vscode/User/globalStorage/state.vscdb''"
  let ?b = "''/home/u/.vscode/User/globalStorage/state.vscdb.backup.7''"
  let ?off = "all_defaults\<lparr>resetIdentifiers := Some False\<rparr>"
  have n: "\<not> enabled True (resetIdentifiers ?off)" by (simp add: enabled_def)
  have fl: "enabled True (resetIdentifiers all_defaults) \<and>
      fst (resetDeviceIdentifiers None broken_world) = Inl ParseError"
    using all_defaults_enabled(1) broken_world_reset by simp
  from refresh_stops_on_reset_failure_only [where opts = all_defaults and a = None and w = broken_world and e = ParseError,
      unfolded Let_def] fl
  have "fst (refreshVSCodeDevice None all_defaults broken_world) = Inl ParseError \<and>
      snd (refreshVSCodeDevice None all_defaults broken_world) =
        logError ''Error during device refresh:'' ParseError
          (if enabled True (resetIdentifiers all_defaults)
           then snd (resetDeviceIdentifiers None
             (info [''Starting VS Code device refresh...''] broken_world))
           else info [''Starting VS Code device refresh...''] broken_world)"
    by blast
  then have a: "fst (refreshVSCodeDevice None all_defaults broken_world) = Inl ParseError"
    and b: "last (log (snd (refreshVSCodeDevice None all_defaults broken_world))) =
      LogError ''Error during device refresh:'' ParseError" by simp_all
  have t: "fst (getTelemetryPath None jammed_world) = ?t"
    by (rule default_telemetry_path) (simp_all add: jammed_world_fields)
  have bp: "backup_path ?t jammed_world = ?b"
    by (rule backup_path_7) (simp add: jammed_world_fields)
  have cf: "existsSync ?t jammed_world \<and>
      copyFileSync ?t ?b jammed_world = Inl (IOError (Copy ?t ?b))"
    by (simp add: existsSync_def copyFileSync_def jammed_world_fields)
  from refresh_stops_on_reset_failure_only [where opts = ?off and a = None and w = jammed_world and v = jammed_world
      and e' = "IOError (Copy ?t ?b)" and ids = "fresh_ids jammed_world",
      unfolded Let_def t bp] n cf
  have "fst (refreshVSCodeDevice None ?off jammed_world) =
      Inr \<lparr>identifiers = (if enabled True (resetIdentifiers ?off) then Some (fresh_ids jammed_world)
                           else None),
           telemetryCleared = (if enabled True (cleanTelemetry ?off) then Some True else None),
           workspaceCleared = (if enabled False (clearWorkspace ?off) then Some True else None),
           cacheCleared = (if enabled True (clearCache ?off) then Some True else None)\<rparr> \<and>
    last (log (cleanTelemetryData None jammed_world)) =
      LogError ''Error cleaning telemetry:'' (IOError (Copy ?t ?b))"
    by blast
  then have c: "fst (refreshVSCodeDevice None ?off jammed_world) =
      Inr \<lparr>identifiers = None, telemetryCleared = Some True, workspaceCleared = None,
           cacheCleared = Some True\<rparr>"
    and d: "last (log (cleanTelemetryData None jammed_world)) =
      LogError ''Error cleaning telemetry:'' (IOError (Copy ?t ?b))"
    by (simp_all add: all_defaults_def enabled_def)
  from a b c d show ?thesis by blast
qed

text \<open>
  Against C1 as stated: with a store that is not JSON and every option at its default,
  the refresh fails with the parse error and the telemetry file is still in place,
  although telemetry cleaning is enabled and would have removed it.
\<close>

theorem refresh_partial_failure_counterexample:
  "fst (refreshVSCodeDevice None all_defaults broken_world) = Inl ParseError \<and>
   files (snd (refreshVSCodeDevice None all_defaults broken_world))
     ''/home/u/.vscode/User/globalStorage/state.vscdb'' = Some (Raw ''db'') \<and>
   enabled True (cleanTelemetry all_defaults) \<and>
   files (cleanTelemetryData None broken_world)
     ''/home/u/.vscode/User/globalStorage/state.vscdb'' = None"
proof -
  let ?t = "''/home/u/.vscode/User/globalStorage/state.vscdb''"
  note r = refresh_fail [OF all_defaults_enabled(1) broken_world_reset]
  from same_state_files [OF r(2)] reset_fail_files [OF broken_world_reset]
  have "files (snd (refreshVSCodeDevice None all_defaults broken_world)) = files broken_world"
    by simp
  then have f: "files (snd (refreshVSCodeDevice None all_defaults broken_world)) ?t =
      Some (Raw ''db'')" by (simp add: broken_world_fields)
  have c: "files (cleanTelemetryData None broken_world) ?t = None"
    by (simp add: cleanTelemetryData_files Let_def broken_world_fields default_global_storage
        path_join_def)
  from r(1) f c all_defaults_enabled(2) show ?thesis by blast
qed

lemma stored_value_cong: "files w' p = files w p \<Longrightarrow> stored_value w' p k = stored_value w p k"
  by (simp add: stored_value_def)

lemma cleanTelemetryData_store:
  assumes "env w = env v" "homeDir w = homeDir v"
  shows "files (cleanTelemetryData a w) (fst (getMachineIdPath a v)) =
         files w (fst (getMachineIdPath a v))"
  using assms
  by (simp add: cleanTelemetryData_files Let_def backup_path_def split: option.splits)

lemma after_reset_fields [simp]:
  "env (after_reset a opts w) = env w" "homeDir (after_reset a opts w) = homeDir w"
  by (simp_all add: after_reset_def)

lemma after_workspace_store:
  "files (after_workspace a opts w) (fst (getMachineIdPath a w)) =
   files (after_reset a opts w) (fst (getMachineIdPath a w))"
  using cleanTelemetryData_store [of "after_reset a opts w" w a]
  by (simp add: after_workspace_def after_telemetry_def)

lemma after_reset_frame:
  "k \<notin> set identifierKeys \<Longrightarrow>
   stored_value (after_reset a opts w) (fst (getMachineIdPath a w)) k =
   stored_value w (fst (getMachineIdPath a w)) k"
  using reset_frame [of k a w] by (simp add: after_reset_def)

lemma refresh_store_frame:
  assumes "k \<notin> set identifierKeys"
  shows "stored_value (snd (refreshVSCodeDevice a opts w)) (fst (getMachineIdPath a w)) k =
         stored_value w (fst (getMachineIdPath a w)) k"
proof (cases "enabled True (resetIdentifiers opts) \<and> isl (fst (resetDeviceIdentifiers a w))")
  case True
  then obtain e where en: "enabled True (resetIdentifiers opts)"
    and fl: "fst (resetDeviceIdentifiers a w) = Inl e"
    by (cases "fst (resetDeviceIdentifiers a w)") auto
  from same_state_files [OF refresh_fail(2) [OF en fl]]
  have "files (snd (refreshVSCodeDevice a opts w)) = files (snd (resetDeviceIdentifiers a w))"
    by simp
  then have "stored_value (snd (refreshVSCodeDevice a opts w)) (fst (getMachineIdPath a w)) k =
      stored_value (snd (resetDeviceIdentifiers a w)) (fst (getMachineIdPath a w)) k"
    by (simp add: stored_value_def)
  with reset_frame [OF assms, of a w] show ?thesis by simp
next
  case False
  then obtain ids where
    h: "fst (resetDeviceIdentifiers a w) = Inr ids \<or> \<not> enabled True (resetIdentifiers opts)"
    by (cases "fst (resetDeviceIdentifiers a w)") auto
  from same_state_files [OF refresh_ok(2) [OF h]]
  have "files (snd (refreshVSCodeDevice a opts w)) = files (after_workspace a opts w)"
    by simp
  then have "stored_value (snd (refreshVSCodeDevice a opts w)) (fst (getMachineIdPath a w)) k =
      stored_value (after_workspace a opts w) (fst (getMachineIdPath a w)) k"
    by (simp add: stored_value_def)
  also have "\<dots> = stored_value (after_reset a opts w) (fst (getMachineIdPath a w)) k"
    by (rule stored_value_cong) (rule after_workspace_store)
  also have "\<dots> = stored_value w (fst (getMachineIdPath a w)) k"
    using assms by (rule after_reset_frame)
  finally show ?thesis .
qed

lemma scoreInfo_not_identifier: "starts_with k ''scoreInfo_'' \<Longrightarrow> k \<notin> set identifierKeys"
  by (auto simp add: identifierKeys_def)

lemma refresh_cacheCleared:
  assumes "enabled True (clearCache opts)" "fst (refreshVSCodeDevice a opts w) = Inr res"
  shows "cacheCleared res = Some True"
proof (cases "enabled True (resetIdentifiers opts) \<and> isl (fst (resetDeviceIdentifiers a w))")
  case True
  then obtain e where en: "enabled True (resetIdentifiers opts)"
    and fl: "fst (resetDeviceIdentifiers a w) = Inl e"
    by (cases "fst (resetDeviceIdentifiers a w)") auto
  from refresh_fail(1) [OF en fl] assms(2) show ?thesis by simp
next
  case False
  then obtain ids where
    h: "fst (resetDeviceIdentifiers a w) = Inr ids \<or> \<not> enabled True (resetIdentifiers opts)"
    by (cases "fst (resetDeviceIdentifiers a w)") auto
  from refresh_ok(1) [OF h] assms show ?thesis by auto
qed

text \<open>
  C10. The option \<^verbatim>\<open>clearCache\<close> has no effect on the world \<^verbatim>\<open>refreshVSCodeDevice\<close>
  leaves: with it on or off the files, the directories and the log are the same,
  \<^verbatim>\<open>clearUserCache\<close> not being called. Every \<open>scoreInfo_\<close> key of the store keeps its
  value through the refresh, and a result returned with the option enabled has
  \<^verbatim>\<open>cacheCleared\<close> set to true.
\<close>

theorem refresh_clearCache_only_sets_flag:
  "snd (refreshVSCodeDevice a (opts\<lparr>clearCache := Some True\<rparr>) w) =
     snd (refreshVSCodeDevice a (opts\<lparr>clearCache := Some False\<rparr>) w) \<and>
   (starts_with k ''scoreInfo_'' \<longrightarrow>
      stored_value (snd (refreshVSCodeDevice a opts w)) (fst (getMachineIdPath a w)) k =
      stored_value w (fst (getMachineIdPath a w)) k) \<and>
   (enabled True (clearCache opts) \<and> fst (refreshVSCodeDevice a opts w) = Inr res \<longrightarrow>
      cacheCleared res = Some True)"
  using refresh_store_frame [OF scoreInfo_not_identifier, of k a opts w]
    refresh_cacheCleared [of opts a w res]
  by (simp add: refresh_world_clearCache)

theorem refresh_clearCache_only_sets_flag_witness:
  "stored_value cache_world ''/home/u/.vscode/User/globalStorage/storage.json''
     ''scoreInfo_user42'' = Some (JStr ''cached'') \<and>
   stored_value (snd (refreshVSCodeDevice None all_defaults cache_world))
     ''/home/u/.vscode/User/globalStorage/storage.json'' ''scoreInfo_user42'' =
     Some (JStr ''cached'') \<and>
   (\<exists>res. fst (refreshVSCodeDevice None all_defaults cache_world) = Inr res \<and>
      cacheCleared res = Some True)"
proof -
  let ?p = "''/home/u/.vscode/User/globalStorage/storage.json''"
  have p: "fst (getMachineIdPath None cache_world) = ?p"
    by (rule default_storage_path) (simp_all add: cache_world_fields)
  have v: "stored_value cache_world ?p ''scoreInfo_user42'' = Some (JStr ''cached'')"
    by (simp add: stored_value_def prop_of_def cache_world_fields)
  have s: "starts_with ''scoreInfo_user42'' ''scoreInfo_''" by simp
  have "fst (resetDeviceIdentifiers None cache_world) = Inr (fresh_ids cache_world)"
    by (rule reset_obj_result(1) [where kvs = "[(''machineId'', JStr ''old-m''),
        (''scoreInfo_user42'', JStr ''cached'')]"])
      (simp_all add: cache_world_fields default_global_storage path_join_def)
  then obtain res where r: "fst (refreshVSCodeDevice None all_defaults cache_world) = Inr res"
    using refresh_ok(1) [of None cache_world "fresh_ids cache_world" all_defaults] by simp
  from refresh_clearCache_only_sets_flag [of None all_defaults cache_world "''scoreInfo_user42''" res]
    s r all_defaults_enabled(4)
  have "stored_value (snd (refreshVSCodeDevice None all_defaults cache_world)) ?p
      ''scoreInfo_user42'' = stored_value cache_world ?p ''scoreInfo_user42'' \<and>
    cacheCleared res = Some True"
    unfolding p by blast
  with v r show ?thesis by auto
qed

subsection \<open>Reading the current identifiers\<close>

lemma read_info_cong:
  "files w' = files w \<Longrightarrow> dirs w' = dirs w \<Longrightarrow> fails w' = fails w \<Longrightarrow>
   read_info p w' = read_info p w"
  by (simp add: read_info_def existsSync_def readFileSync_def)

lemma getCurrentDeviceInfo_eq:
  "getCurrentDeviceInfo a w =
     (case read_info (fst (getMachineIdPath a w)) w of
        Inl e \<Rightarrow> (None, logError ''Error reading device info:'' e (snd (getMachineIdPath a w)))
      | Inr r \<Rightarrow> (r, snd (getMachineIdPath a w)))"
proof -
  have "read_info p (snd (getMachineIdPath a w)) = read_info p w" for p
    by (rule read_info_cong) simp_all
  then show ?thesis by (simp add: getCurrentDeviceInfo_def split_def Let_def)
qed

lemma read_info_cases:
  "\<not> existsSync p w \<Longrightarrow> read_info p w = Inr None"
  "existsSync p w \<Longrightarrow> fails w (Read p) \<or> files w p = None \<Longrightarrow>
     read_info p w = Inl (IOError (Read p))"
  "\<not> fails w (Read p) \<Longrightarrow> files w p = Some (Raw b) \<Longrightarrow> read_info p w = Inl ParseError"
  "\<not> fails w (Read p) \<Longrightarrow> files w p = Some (Json JNull) \<Longrightarrow> read_info p w = Inl TypeError"
  "\<not> fails w (Read p) \<Longrightarrow> files w p = Some (Json (JObj kvs)) \<Longrightarrow>
     read_info p w =
       Inr (Some
         \<lparr>machineId = (if truthy (map_of kvs ''telemetry.machineId'')
                        then map_of kvs ''telemetry.machineId'' else map_of kvs ''machineId''),
          deviceId = (if truthy (map_of kvs ''telemetry.devDeviceId'')
                       then map_of kvs ''telemetry.devDeviceId'' else map_of kvs ''deviceId''),
          sessionId = (if truthy (map_of kvs ''telemetry.sessionId'')
                        then map_of kvs ''telemetry.sessionId'' else map_of kvs ''sessionId''),
          storagePath = p\<rparr>)"
  by (auto simp add: read_info_def existsSync_def readFileSync_def JSON_parse_def get_or_def)

text \<open>
  C7, as amended. \<^verbatim>\<open>getCurrentDeviceInfo\<close> never throws and changes no file or
  directory. It returns \<^verbatim>\<open>null\<close> when nothing exists at the store path, and also when
  the store cannot be read or is not JSON: the error is then logged, not passed to the
  caller. On a store that holds an object it returns the identifiers, each
  \<open>telemetry.\<close> key before the bare one, and the store path.
\<close>

theorem getCurrentDeviceInfo_null_on_any_failure:
  "let p = fst (getMachineIdPath a w);
       r = fst (getCurrentDeviceInfo a w);
       w' = snd (getCurrentDeviceInfo a w)
   in files w' = files w \<and> dirs w' = dirs w \<and>
      (\<not> existsSync p w \<longrightarrow> r = None) \<and>
      (existsSync p w \<and> (fails w (Read p) \<or> files w p = None) \<longrightarrow>
         r = None \<and> last (log w') = LogError ''Error reading device info:'' (IOError (Read p))) \<and>
      (\<not> fails w (Read p) \<and> files w p = Some (Raw b) \<longrightarrow>
         r = None \<and> last (log w') = LogError ''Error reading device info:'' ParseError) \<and>
      (\<not> fails w (Read p) \<and> files w p = Some (Json (JObj kvs)) \<longrightarrow>
         r = Some
           \<lparr>machineId = (if truthy (map_of kvs ''telemetry.machineId'')
                          then map_of kvs ''telemetry.machineId'' else map_of kvs ''machineId''),
            deviceId = (if truthy (map_of kvs ''telemetry.devDeviceId'')
                         then map_of kvs ''telemetry.devDeviceId'' else map_of kvs ''deviceId''),
            sessionId = (if truthy (map_of kvs ''telemetry.sessionId'')
                          then map_of kvs ''telemetry.sessionId'' else map_of kvs ''sessionId''),
            storagePath = p\<rparr>)"
proof -
  let ?p = "fst (getMachineIdPath a w)"
  have u: "files (snd (getCurrentDeviceInfo a w)) = files w \<and>
      dirs (snd (getCurrentDeviceInfo a w)) = dirs w"
    by (simp add: getCurrentDeviceInfo_eq split: sum.splits)
  have n: "fst (getCurrentDeviceInfo a w) = None" if "\<not> existsSync ?p w"
    using read_info_cases(1) [OF that] by (simp add: getCurrentDeviceInfo_eq)
  have i: "fst (getCurrentDeviceInfo a w) = None \<and>
      last (log (snd (getCurrentDeviceInfo a w))) =
        LogError ''Error reading device info:'' (IOError (Read ?p))"
    if "existsSync ?p w" "fails w (Read ?p) \<or> files w ?p = None"
    using read_info_cases(2) [OF that] by (simp add: getCurrentDeviceInfo_eq)
  have e: "fst (getCurrentDeviceInfo a w) = None \<and>
      last (log (snd (getCurrentDeviceInfo a w))) = LogError ''Error reading device info:'' ParseError"
    if "\<not> fails w (Read ?p)" "files w ?p = Some (Raw b)"
    using read_info_cases(3) [OF that] by (simp add: getCurrentDeviceInfo_eq)
  have s: "fst (getCurrentDeviceInfo a w) = Some
           \<lparr>machineId = (if truthy (map_of kvs ''telemetry.machineId'')
                          then map_of kvs ''telemetry.machineId'' else map_of kvs ''machineId''),
            deviceId = (if truthy (map_of kvs ''telemetry.devDeviceId'')
                         then map_of kvs ''telemetry.devDeviceId'' else map_of kvs ''deviceId''),
            sessionId = (if truthy (map_of kvs ''telemetry.sessionId'')
                          then map_of kvs ''telemetry.sessionId'' else map_of kvs ''sessionId''),
            storagePath = ?p\<rparr>"
    if "\<not> fails w (Read ?p)" "files w ?p = Some (Json (JObj kvs))"
    using read_info_cases(5) [OF that] by (simp add: getCurrentDeviceInfo_eq)
  from u n i e s show ?thesis unfolding Let_def by blast
qed

theorem getCurrentDeviceInfo_null_on_any_failure_witness:
  "fst (getCurrentDeviceInfo None half_world) = None \<and>
   fst (getCurrentDeviceInfo None scenario_world) =
     Some \<lparr>machineId = Some (JStr ''old-m''), deviceId = Some (JStr ''old-d''),
           sessionId = Some (JStr ''old-s''),
           storagePath = ''/home/u/.vscode/User/globalStorage/storage.json''\<rparr>"
proof -
  let ?p = "''/home/u/.vscode/User/globalStorage/storage.json''"
  let ?kvs = "[(''telemetry.machineId'', JStr ''old-m''), (''deviceId'', JStr ''old-d''),
               (''telemetry.sessionId'', JStr ''old-s'')]"
  have p: "fst (getMachineIdPath None half_world) = ?p"
    by (rule default_storage_path) (simp_all add: half_world_def)
  have q: "fst (getMachineIdPath None scenario_world) = ?p"
    by (rule default_storage_path) (simp_all add: scenario_world_fields)
  have n: "\<not> existsSync ?p half_world" by (simp add: existsSync_def half_world_def)
  have f: "\<not> fails scenario_world (Read ?p)" "files scenario_world ?p = Some (Json (JObj ?kvs))"
    by (simp_all add: scenario_world_fields)
  from getCurrentDeviceInfo_null_on_any_failure [of None half_world] n
  have a: "fst (getCurrentDeviceInfo None half_world) = None"
    unfolding Let_def p by blast
  from getCurrentDeviceInfo_null_on_any_failure [of None scenario_world _ ?kvs] f
  have "fst (getCurrentDeviceInfo None scenario_world) = Some
           \<lparr>machineId = (if truthy (map_of ?kvs ''telemetry.machineId'')
                          then map_of ?kvs ''telemetry.machineId'' else map_of ?kvs ''machineId''),
            deviceId = (if truthy (map_of ?kvs ''telemetry.devDeviceId'')
                         then map_of ?kvs ''telemetry.devDeviceId'' else map_of ?kvs ''deviceId''),
            sessionId = (if truthy (map_of ?kvs ''telemetry.sessionId'')
                          then map_of ?kvs ''telemetry.sessionId'' else map_of ?kvs ''sessionId''),
            storagePath = ?p\<rparr>"
    unfolding Let_def q by blast
  with a show ?thesis by simp
qed

text \<open>
  Against C7 as stated: with a store file that exists and is not JSON, the result is the
  same \<^verbatim>\<open>null\<close> as for a missing file, and the parse error ends in the log.
\<close>

theorem getCurrentDeviceInfo_swallows_counterexample:
  "existsSync ''/home/u/.vscode/User/globalStorage/storage.json'' broken_world \<and>
   fst (getCurrentDeviceInfo None broken_world) = None \<and>
   last (log (snd (getCurrentDeviceInfo None broken_world))) =
     LogError ''Error reading device info:'' ParseError"
proof -
  let ?p = "''/home/u/.vscode/User/globalStorage/storage.json''"
  have p: "fst (getMachineIdPath None broken_world) = ?p"
    by (rule default_storage_path) (simp_all add: broken_world_fields)
  have e: "existsSync ?p broken_world" by (simp add: existsSync_def broken_world_fields)
  have "read_info ?p broken_world = Inl ParseError"
    by (rule read_info_cases(3) [where b = "''{''"]) (simp_all add: broken_world_fields)
  then have "getCurrentDeviceInfo None broken_world =
      (None, logError ''Error reading device info:'' ParseError
         (snd (getMachineIdPath None broken_world)))"
    unfolding getCurrentDeviceInfo_eq p by simp
  with e show ?thesis by simp
qed

end
